theory Spec2Isabelle
  imports Complex_Main
begin

section \<open>Python floats and errors\<close>

text \<open>
  A Python float is a finite value, one of the two infinities, or not-a-number.
  The result of an arithmetic operation on finite values is the exact real result
  passed through a rounding function \<open>rnd\<close>, which every operation takes as its
  first argument and about which nothing is assumed unless a theorem says so: it
  may round, and it may overflow to an infinity. IEEE double arithmetic is one
  such function. The two zeros are one value \<open>Fin 0\<close>; they compare equal in
  Python and a division by either raises.

  The functions of the \<open>math\<close> library go through \<open>rnd\<close> as well. That asks nothing
  of the library for \<open>exp\<close> and \<open>log\<close>, whose exact values at a float, \<open>exp 0\<close> and
  \<open>ln 1\<close> apart, are irrational and so never the exact result of an addition, a
  product or a quotient of floats. For \<open>hypot\<close>, whose exact value can be rational,
  it asks that such a value is rounded as the arithmetic rounds it. The power
  operator is different, \<open>x ** 2\<close> and \<open>x * x\<close> having the same exact value at every
  float, and has a function of its own.
\<close>

datatype pyfloat = Fin real | PInf | NInf | NaN

type_synonym rounding = "real \<Rightarrow> pyfloat"

type_synonym point = "pyfloat \<times> pyfloat"

datatype error =
    ZeroDivisionError
  | OverflowError
  | ValueError
  | IndexError
  | UnboundLocalError

definition ebind :: "error + 'a \<Rightarrow> ('a \<Rightarrow> error + 'b) \<Rightarrow> error + 'b" where
  "ebind m f = (case m of Inl e \<Rightarrow> Inl e | Inr v \<Rightarrow> f v)"

fun emap :: "('a \<Rightarrow> error + 'b) \<Rightarrow> 'a list \<Rightarrow> error + 'b list" where
  "emap f [] = Inr []"
| "emap f (x # xs) = ebind (f x) (\<lambda>y. ebind (emap f xs) (\<lambda>ys. Inr (y # ys)))"

definition py_nth :: "'a list \<Rightarrow> nat \<Rightarrow> error + 'a" where
  "py_nth xs i = (if i < length xs then Inr (xs ! i) else Inl IndexError)"


fun fneg :: "pyfloat \<Rightarrow> pyfloat" where
  "fneg (Fin x) = Fin (- x)"
| "fneg PInf = NInf"
| "fneg NInf = PInf"
| "fneg NaN = NaN"

fun fadd :: "rounding \<Rightarrow> pyfloat \<Rightarrow> pyfloat \<Rightarrow> pyfloat" where
  "fadd rnd (Fin x) (Fin y) = rnd (x + y)"
| "fadd rnd NaN b = NaN"
| "fadd rnd a NaN = NaN"
| "fadd rnd PInf NInf = NaN"
| "fadd rnd NInf PInf = NaN"
| "fadd rnd PInf b = PInf"
| "fadd rnd a PInf = PInf"
| "fadd rnd NInf b = NInf"
| "fadd rnd a NInf = NInf"

definition fsub :: "rounding \<Rightarrow> pyfloat \<Rightarrow> pyfloat \<Rightarrow> pyfloat" where
  "fsub rnd a b = fadd rnd a (fneg b)"

fun fmul :: "rounding \<Rightarrow> pyfloat \<Rightarrow> pyfloat \<Rightarrow> pyfloat" where
  "fmul rnd (Fin x) (Fin y) = rnd (x * y)"
| "fmul rnd NaN b = NaN"
| "fmul rnd a NaN = NaN"
| "fmul rnd (Fin x) PInf = (if x = 0 then NaN else if 0 < x then PInf else NInf)"
| "fmul rnd (Fin x) NInf = (if x = 0 then NaN else if 0 < x then NInf else PInf)"
| "fmul rnd PInf (Fin y) = (if y = 0 then NaN else if 0 < y then PInf else NInf)"
| "fmul rnd NInf (Fin y) = (if y = 0 then NaN else if 0 < y then NInf else PInf)"
| "fmul rnd PInf PInf = PInf"
| "fmul rnd PInf NInf = NInf"
| "fmul rnd NInf PInf = NInf"
| "fmul rnd NInf NInf = PInf"

text \<open>The quotient for a divisor that is not zero.\<close>

fun fquot :: "rounding \<Rightarrow> pyfloat \<Rightarrow> pyfloat \<Rightarrow> pyfloat" where
  "fquot rnd (Fin x) (Fin y) = rnd (x / y)"
| "fquot rnd NaN b = NaN"
| "fquot rnd a NaN = NaN"
| "fquot rnd (Fin x) PInf = Fin 0"
| "fquot rnd (Fin x) NInf = Fin 0"
| "fquot rnd PInf (Fin y) = (if 0 < y then PInf else NInf)"
| "fquot rnd NInf (Fin y) = (if 0 < y then NInf else PInf)"
| "fquot rnd PInf b = NaN"
| "fquot rnd NInf b = NaN"

text \<open>Float division raises on a zero divisor, whatever the dividend.\<close>

definition fdiv :: "rounding \<Rightarrow> pyfloat \<Rightarrow> pyfloat \<Rightarrow> error + pyfloat" where
  "fdiv rnd a b = (if b = Fin 0 then Inl ZeroDivisionError else Inr (fquot rnd a b))"

text \<open>Comparisons: every comparison with not-a-number is false.\<close>

fun flt :: "pyfloat \<Rightarrow> pyfloat \<Rightarrow> bool" where
  "flt (Fin x) (Fin y) = (x < y)"
| "flt NaN b = False"
| "flt a NaN = False"
| "flt a NInf = False"
| "flt PInf b = False"
| "flt NInf b = True"
| "flt a PInf = True"

fun feq :: "pyfloat \<Rightarrow> pyfloat \<Rightarrow> bool" where
  "feq (Fin x) (Fin y) = (x = y)"
| "feq PInf PInf = True"
| "feq NInf NInf = True"
| "feq a b = False"

definition fle :: "pyfloat \<Rightarrow> pyfloat \<Rightarrow> bool" where
  "fle a b = (flt a b \<or> feq a b)"

text \<open>\<open>max(a, b)\<close> keeps \<open>a\<close> unless \<open>b > a\<close>.\<close>

definition pymax :: "pyfloat \<Rightarrow> pyfloat \<Rightarrow> pyfloat" where
  "pymax a b = (if flt a b then b else a)"

text \<open>\<open>math.hypot\<close>: an infinite argument wins over not-a-number.\<close>

fun hypot :: "rounding \<Rightarrow> pyfloat \<Rightarrow> pyfloat \<Rightarrow> pyfloat" where
  "hypot rnd (Fin x) (Fin y) = rnd (sqrt (x * x + y * y))"
| "hypot rnd PInf b = PInf"
| "hypot rnd NInf b = PInf"
| "hypot rnd a PInf = PInf"
| "hypot rnd a NInf = PInf"
| "hypot rnd a b = NaN"

text \<open>\<open>math.exp\<close> raises when a finite argument overflows.\<close>

fun mexp :: "rounding \<Rightarrow> pyfloat \<Rightarrow> error + pyfloat" where
  "mexp rnd (Fin x) = (case rnd (exp x) of Fin r \<Rightarrow> Inr (Fin r) | _ \<Rightarrow> Inl OverflowError)"
| "mexp rnd PInf = Inr PInf"
| "mexp rnd NInf = Inr (Fin 0)"
| "mexp rnd NaN = Inr NaN"

text \<open>\<open>math.log\<close> raises outside its domain.\<close>

fun mlog :: "rounding \<Rightarrow> pyfloat \<Rightarrow> error + pyfloat" where
  "mlog rnd (Fin x) = (if x \<le> 0 then Inl ValueError else Inr (rnd (ln x)))"
| "mlog rnd PInf = Inr PInf"
| "mlog rnd NInf = Inl ValueError"
| "mlog rnd NaN = Inr NaN"

text \<open>\<open>x ** 2\<close> is computed by the C library's \<open>pow\<close>, which need not round
  the exact square correctly: its value at a finite \<open>x\<close> is given by a function
  \<open>pow2\<close> of its own, about which nothing is assumed either. The operator raises
  when that value overflows. \<open>exact_pow2\<close> is the instance without rounding.\<close>

fun fsquare :: "(real \<Rightarrow> pyfloat) \<Rightarrow> pyfloat \<Rightarrow> error + pyfloat" where
  "fsquare pow2 (Fin x) = (case pow2 x of Fin r \<Rightarrow> Inr (Fin r) | _ \<Rightarrow> Inl OverflowError)"
| "fsquare pow2 PInf = Inr PInf"
| "fsquare pow2 NInf = Inr PInf"
| "fsquare pow2 NaN = Inr NaN"

definition exact_pow2 :: "real \<Rightarrow> pyfloat" where
  "exact_pow2 x = Fin (x * x)"

text \<open>The true division of two integers.\<close>

definition int_div :: "rounding \<Rightarrow> nat \<Rightarrow> int \<Rightarrow> error + pyfloat" where
  "int_div rnd a b = (if b = 0 then Inl ZeroDivisionError else Inr (rnd (real a / real_of_int b)))"

section \<open>Potential energy surface (pes.py)\<close>

record Gaussian =
  amplitude :: pyfloat
  sigma :: pyfloat
  x0 :: pyfloat
  y0 :: pyfloat

record CircularState =
  x0 :: pyfloat
  y0 :: pyfloat
  radius :: pyfloat

record GridSpec =
  minimum :: pyfloat
  maximum :: pyfloat
  resolution :: int

text \<open>
  A configuration mapping is a dictionary from keys to numbers. Its values are
  taken to be numbers already: \<open>float(v)\<close> of an integer rounds it and raises when
  it is too large, \<open>int(v)\<close> of a float truncates towards zero and raises on
  not-a-number and on the infinities.
\<close>

datatype number = PyInt int | PyFloat pyfloat

type_synonym mapping = "string \<rightharpoonup> number"

fun to_float :: "rounding \<Rightarrow> number \<Rightarrow> error + pyfloat" where
  "to_float rnd (PyFloat a) = Inr a"
| "to_float rnd (PyInt i) =
     (case rnd (real_of_int i) of Fin r \<Rightarrow> Inr (Fin r) | _ \<Rightarrow> Inl OverflowError)"

fun to_int :: "number \<Rightarrow> error + int" where
  "to_int (PyInt i) = Inr i"
| "to_int (PyFloat (Fin x)) = Inr (if 0 \<le> x then \<lfloor>x\<rfloor> else \<lceil>x\<rceil>)"
| "to_int (PyFloat NaN) = Inl ValueError"
| "to_int (PyFloat PInf) = Inl OverflowError"
| "to_int (PyFloat NInf) = Inl OverflowError"

text \<open>\<open>mapping.get(key, default)\<close>.\<close>

definition get_default :: "mapping \<Rightarrow> string \<Rightarrow> number \<Rightarrow> number" where
  "get_default m key d = (case m key of None \<Rightarrow> d | Some v \<Rightarrow> v)"

definition Gaussian_from_mapping :: "rounding \<Rightarrow> mapping \<Rightarrow> error + Gaussian" where
  "Gaussian_from_mapping rnd m =
     ebind (to_float rnd (get_default m ''amplitude'' (PyFloat (Fin 0)))) (\<lambda>a.
     ebind (to_float rnd (get_default m ''sigma'' (PyFloat (Fin 1)))) (\<lambda>s.
     ebind (to_float rnd (get_default m ''x0'' (PyFloat (Fin 0)))) (\<lambda>x.
     ebind (to_float rnd (get_default m ''y0'' (PyFloat (Fin 0)))) (\<lambda>y.
       Inr \<lparr>amplitude = a, sigma = pymax s (rnd (1 / 10 ^ 6)), x0 = x, y0 = y\<rparr>))))"

definition CircularState_from_mapping :: "rounding \<Rightarrow> mapping \<Rightarrow> error + CircularState" where
  "CircularState_from_mapping rnd m =
     ebind (to_float rnd (get_default m ''radius'' (PyFloat (Fin 1)))) (\<lambda>radius.
       if fle radius (Fin 0) then Inl ValueError
       else ebind (to_float rnd (get_default m ''x0'' (PyFloat (Fin 0)))) (\<lambda>x.
            ebind (to_float rnd (get_default m ''y0'' (PyFloat (Fin 0)))) (\<lambda>y.
              Inr \<lparr>x0 = x, y0 = y, radius = radius\<rparr>)))"

text \<open>\<open>not mapping\<close> holds for \<open>None\<close> and for the empty dictionary.\<close>

definition GridSpec_from_mapping :: "rounding \<Rightarrow> mapping option \<Rightarrow> error + GridSpec" where
  "GridSpec_from_mapping rnd mo =
     (case mo of
        None \<Rightarrow> Inr \<lparr>minimum = Fin (- 4), maximum = Fin 4, resolution = 60\<rparr>
      | Some m \<Rightarrow>
          if m = Map.empty then Inr \<lparr>minimum = Fin (- 4), maximum = Fin 4, resolution = 60\<rparr>
          else
            ebind (to_float rnd (get_default m ''minimum'' (PyFloat (Fin (- 4))))) (\<lambda>minimum.
            ebind (to_float rnd (get_default m ''maximum'' (PyFloat (Fin 4)))) (\<lambda>maximum.
              if fle maximum minimum then Inl ValueError
              else ebind (to_int (get_default m ''resolution'' (PyInt 60))) (\<lambda>resolution.
                Inr \<lparr>minimum = minimum, maximum = maximum,
                     resolution = max resolution 10\<rparr>))))"

definition to_gaussians :: "rounding \<Rightarrow> mapping list \<Rightarrow> error + Gaussian list" where
  "to_gaussians rnd items = emap (Gaussian_from_mapping rnd) items"

text \<open>\<open>linspace\<close>: \<open>(stop - start) / (num - 1)\<close> divides a float by an integer.\<close>

definition linspace :: "rounding \<Rightarrow> pyfloat \<Rightarrow> pyfloat \<Rightarrow> int \<Rightarrow> error + pyfloat list" where
  "linspace rnd start stop num =
     (if num = 1 then Inr [start]
      else ebind (fdiv rnd (fsub rnd stop start) (Fin (real_of_int (num - 1)))) (\<lambda>step.
             Inr (map (\<lambda>i. fadd rnd start (fmul rnd step (Fin (real i)))) [0..<nat num])))"

definition create_grid ::
  "rounding \<Rightarrow> GridSpec \<Rightarrow>
   error + (pyfloat list list \<times> pyfloat list list \<times> pyfloat list \<times> pyfloat list)" where
  "create_grid rnd spec =
     ebind (linspace rnd (minimum spec) (maximum spec) (resolution spec)) (\<lambda>x_axis.
     ebind (linspace rnd (minimum spec) (maximum spec) (resolution spec)) (\<lambda>y_axis.
     ebind (emap (\<lambda>_. emap (\<lambda>col. py_nth x_axis col) [0..<nat (resolution spec)])
              [0..<nat (resolution spec)]) (\<lambda>grid_x.
     ebind (emap (\<lambda>row. emap (\<lambda>_. py_nth y_axis row) [0..<nat (resolution spec)])
              [0..<nat (resolution spec)]) (\<lambda>grid_y.
       Inr (grid_x, grid_y, x_axis, y_axis)))))"

text \<open>\<open>rows = len(grid_x)\<close> and \<open>cols = len(grid_x[0]) if rows else 0\<close>.\<close>

definition grid_rows :: "'a list list \<Rightarrow> nat" where
  "grid_rows grid = length grid"

definition grid_cols :: "'a list list \<Rightarrow> nat" where
  "grid_cols grid = (case grid of [] \<Rightarrow> 0 | r # _ \<Rightarrow> length r)"

text \<open>\<open>grid[row][col]\<close>, which raises outside the grid.\<close>

definition cell :: "'a list list \<Rightarrow> nat \<Rightarrow> nat \<Rightarrow> error + 'a" where
  "cell grid row col = ebind (py_nth grid row) (\<lambda>r. py_nth r col)"

definition set_cell :: "'a list list \<Rightarrow> nat \<Rightarrow> nat \<Rightarrow> 'a \<Rightarrow> 'a list list" where
  "set_cell grid row col v = grid[row := (grid ! row)[col := v]]"

text \<open>\<open>evaluate_potential\<close>: for each feature, for each row, for each column, the
  cell of the accumulator grid is increased by the feature's value there.\<close>

fun potential_cols ::
  "rounding \<Rightarrow> Gaussian \<Rightarrow> pyfloat \<Rightarrow> pyfloat list list \<Rightarrow> pyfloat list list \<Rightarrow> nat \<Rightarrow>
   nat list \<Rightarrow> pyfloat list list \<Rightarrow> error + pyfloat list list" where
  "potential_cols rnd gaussian sigma2 grid_x grid_y row [] pot = Inr pot"
| "potential_cols rnd gaussian sigma2 grid_x grid_y row (col # cols) pot =
     ebind (cell grid_x row col) (\<lambda>gx.
     ebind (cell grid_y row col) (\<lambda>gy.
       let dx = fsub rnd gx (Gaussian.x0 gaussian);
           dy = fsub rnd gy (Gaussian.y0 gaussian);
           r2 = fadd rnd (fmul rnd dx dx) (fmul rnd dy dy)
       in ebind (fdiv rnd (fmul rnd (Fin (- (1 / 2))) r2) sigma2) (\<lambda>q.
          ebind (mexp rnd q) (\<lambda>e.
          ebind (cell pot row col) (\<lambda>old.
            potential_cols rnd gaussian sigma2 grid_x grid_y row cols
              (set_cell pot row col (fadd rnd old (fmul rnd (amplitude gaussian) e))))))))"

fun potential_rows ::
  "rounding \<Rightarrow> Gaussian \<Rightarrow> pyfloat \<Rightarrow> pyfloat list list \<Rightarrow> pyfloat list list \<Rightarrow> nat list \<Rightarrow>
   nat list \<Rightarrow> pyfloat list list \<Rightarrow> error + pyfloat list list" where
  "potential_rows rnd gaussian sigma2 grid_x grid_y [] cols pot = Inr pot"
| "potential_rows rnd gaussian sigma2 grid_x grid_y (row # rows) cols pot =
     ebind (potential_cols rnd gaussian sigma2 grid_x grid_y row cols pot)
       (potential_rows rnd gaussian sigma2 grid_x grid_y rows cols)"

fun potential_features ::
  "rounding \<Rightarrow> pyfloat list list \<Rightarrow> pyfloat list list \<Rightarrow> Gaussian list \<Rightarrow>
   pyfloat list list \<Rightarrow> error + pyfloat list list" where
  "potential_features rnd grid_x grid_y [] pot = Inr pot"
| "potential_features rnd grid_x grid_y (gaussian # gaussians) pot =
     (let sigma2 = fmul rnd (sigma gaussian) (sigma gaussian)
      in ebind (potential_rows rnd gaussian sigma2 grid_x grid_y
                  [0..<grid_rows grid_x] [0..<grid_cols grid_x] pot)
           (potential_features rnd grid_x grid_y gaussians))"

definition evaluate_potential ::
  "rounding \<Rightarrow> pyfloat list list \<Rightarrow> pyfloat list list \<Rightarrow> Gaussian list \<Rightarrow>
   error + pyfloat list list" where
  "evaluate_potential rnd grid_x grid_y gaussians =
     potential_features rnd grid_x grid_y gaussians
       (replicate (grid_rows grid_x) (replicate (grid_cols grid_x) (Fin 0)))"

text \<open>\<open>gradient_potential\<close>: the same sweep on two accumulator grids.\<close>

fun gradient_cols ::
  "rounding \<Rightarrow> Gaussian \<Rightarrow> pyfloat \<Rightarrow> pyfloat list list \<Rightarrow> pyfloat list list \<Rightarrow> nat \<Rightarrow>
   nat list \<Rightarrow> pyfloat list list \<times> pyfloat list list \<Rightarrow>
   error + (pyfloat list list \<times> pyfloat list list)" where
  "gradient_cols rnd gaussian sigma2 grid_x grid_y row [] acc = Inr acc"
| "gradient_cols rnd gaussian sigma2 grid_x grid_y row (col # cols) acc =
     ebind (cell grid_x row col) (\<lambda>cx.
     ebind (cell grid_y row col) (\<lambda>cy.
       let dx = fsub rnd cx (Gaussian.x0 gaussian);
           dy = fsub rnd cy (Gaussian.y0 gaussian);
           r2 = fadd rnd (fmul rnd dx dx) (fmul rnd dy dy)
       in ebind (fdiv rnd (fmul rnd (Fin (- (1 / 2))) r2) sigma2) (\<lambda>q.
          ebind (mexp rnd q) (\<lambda>e.
          ebind (fdiv rnd (fmul rnd (amplitude gaussian) e) sigma2) (\<lambda>coeff.
          ebind (cell (fst acc) row col) (\<lambda>oldx.
          ebind (cell (snd acc) row col) (\<lambda>oldy.
            gradient_cols rnd gaussian sigma2 grid_x grid_y row cols
              (set_cell (fst acc) row col (fadd rnd oldx (fmul rnd (fneg dx) coeff)),
               set_cell (snd acc) row col (fadd rnd oldy (fmul rnd (fneg dy) coeff))))))))))"

fun gradient_rows ::
  "rounding \<Rightarrow> Gaussian \<Rightarrow> pyfloat \<Rightarrow> pyfloat list list \<Rightarrow> pyfloat list list \<Rightarrow> nat list \<Rightarrow>
   nat list \<Rightarrow> pyfloat list list \<times> pyfloat list list \<Rightarrow>
   error + (pyfloat list list \<times> pyfloat list list)" where
  "gradient_rows rnd gaussian sigma2 grid_x grid_y [] cols acc = Inr acc"
| "gradient_rows rnd gaussian sigma2 grid_x grid_y (row # rows) cols acc =
     ebind (gradient_cols rnd gaussian sigma2 grid_x grid_y row cols acc)
       (gradient_rows rnd gaussian sigma2 grid_x grid_y rows cols)"

fun gradient_features ::
  "rounding \<Rightarrow> pyfloat list list \<Rightarrow> pyfloat list list \<Rightarrow> Gaussian list \<Rightarrow>
   pyfloat list list \<times> pyfloat list list \<Rightarrow>
   error + (pyfloat list list \<times> pyfloat list list)" where
  "gradient_features rnd grid_x grid_y [] acc = Inr acc"
| "gradient_features rnd grid_x grid_y (gaussian # gaussians) acc =
     (let sigma2 = fmul rnd (sigma gaussian) (sigma gaussian)
      in ebind (gradient_rows rnd gaussian sigma2 grid_x grid_y
                  [0..<grid_rows grid_x] [0..<grid_cols grid_x] acc)
           (gradient_features rnd grid_x grid_y gaussians))"

definition gradient_potential ::
  "rounding \<Rightarrow> pyfloat list list \<Rightarrow> pyfloat list list \<Rightarrow> Gaussian list \<Rightarrow>
   error + (pyfloat list list \<times> pyfloat list list)" where
  "gradient_potential rnd grid_x grid_y gaussians =
     gradient_features rnd grid_x grid_y gaussians
       (replicate (grid_rows grid_x) (replicate (grid_cols grid_x) (Fin 0)),
        replicate (grid_rows grid_x) (replicate (grid_cols grid_x) (Fin 0)))"

text \<open>\<open>evaluate_potential_at_point\<close>: the loop over the features, with the running
  \<open>value\<close>.\<close>

fun potential_at_point_loop ::
  "rounding \<Rightarrow> point \<Rightarrow> Gaussian list \<Rightarrow> pyfloat \<Rightarrow> error + pyfloat" where
  "potential_at_point_loop rnd point [] value = Inr value"
| "potential_at_point_loop rnd point (gaussian # gaussians) value =
     (let dx = fsub rnd (fst point) (Gaussian.x0 gaussian);
          dy = fsub rnd (snd point) (Gaussian.y0 gaussian);
          sigma2 = fmul rnd (sigma gaussian) (sigma gaussian);
          r2 = fadd rnd (fmul rnd dx dx) (fmul rnd dy dy)
      in ebind (fdiv rnd (fmul rnd (Fin (- (1 / 2))) r2) sigma2) (\<lambda>q.
         ebind (mexp rnd q) (\<lambda>e.
           potential_at_point_loop rnd point gaussians
             (fadd rnd value (fmul rnd (amplitude gaussian) e)))))"

definition evaluate_potential_at_point :: "rounding \<Rightarrow> point \<Rightarrow> Gaussian list \<Rightarrow> error + pyfloat" where
  "evaluate_potential_at_point rnd point gaussians =
     potential_at_point_loop rnd point gaussians (Fin 0)"

text \<open>\<open>evaluate_gradient_at_point\<close>: the loop with the running \<open>gx\<close> and \<open>gy\<close>.\<close>

fun gradient_at_point_loop ::
  "rounding \<Rightarrow> point \<Rightarrow> Gaussian list \<Rightarrow> point \<Rightarrow> error + point" where
  "gradient_at_point_loop rnd point [] g = Inr g"
| "gradient_at_point_loop rnd point (gaussian # gaussians) g =
     (let dx = fsub rnd (fst point) (Gaussian.x0 gaussian);
          dy = fsub rnd (snd point) (Gaussian.y0 gaussian);
          sigma2 = fmul rnd (sigma gaussian) (sigma gaussian);
          r2 = fadd rnd (fmul rnd dx dx) (fmul rnd dy dy)
      in ebind (fdiv rnd (fmul rnd (Fin (- (1 / 2))) r2) sigma2) (\<lambda>q.
         ebind (mexp rnd q) (\<lambda>e.
         ebind (fdiv rnd (fmul rnd (amplitude gaussian) e) sigma2) (\<lambda>coeff.
           gradient_at_point_loop rnd point gaussians
             (fadd rnd (fst g) (fmul rnd (fneg dx) coeff),
              fadd rnd (snd g) (fmul rnd (fneg dy) coeff))))))"

definition evaluate_gradient_at_point :: "rounding \<Rightarrow> point \<Rightarrow> Gaussian list \<Rightarrow> error + point" where
  "evaluate_gradient_at_point rnd point gaussians =
     gradient_at_point_loop rnd point gaussians (Fin 0, Fin 0)"

text \<open>\<open>transition_state_boundary\<close>\<close>

fun fabs :: "pyfloat \<Rightarrow> pyfloat" where
  "fabs (Fin x) = Fin \<bar>x\<bar>"
| "fabs PInf = PInf"
| "fabs NInf = PInf"
| "fabs NaN = NaN"

fun boundary_cells ::
  "rounding \<Rightarrow> pyfloat list list \<Rightarrow> pyfloat list list \<Rightarrow> pyfloat list list \<Rightarrow> pyfloat \<Rightarrow>
   pyfloat \<Rightarrow> (nat \<times> nat) list \<Rightarrow> point list \<Rightarrow> error + point list" where
  "boundary_cells rnd grid_x grid_y pot transition_energy tolerance [] points = Inr points"
| "boundary_cells rnd grid_x grid_y pot transition_energy tolerance ((row, col) # cells) points =
     ebind (cell pot row col) (\<lambda>v.
       if fle (fabs (fsub rnd v transition_energy)) tolerance
       then ebind (cell grid_x row col) (\<lambda>cx.
            ebind (cell grid_y row col) (\<lambda>cy.
              boundary_cells rnd grid_x grid_y pot transition_energy tolerance cells
                (points @ [(cx, cy)])))
       else boundary_cells rnd grid_x grid_y pot transition_energy tolerance cells points)"

text \<open>The cells in the order of the nested loops: row by row, column by column.\<close>

definition all_cells :: "'a list list \<Rightarrow> (nat \<times> nat) list" where
  "all_cells grid =
     concat (map (\<lambda>row. map (\<lambda>col. (row, col)) [0..<grid_cols grid]) [0..<grid_rows grid])"

definition transition_state_boundary ::
  "rounding \<Rightarrow> pyfloat list list \<Rightarrow> pyfloat list list \<Rightarrow> pyfloat list list \<Rightarrow> pyfloat \<Rightarrow>
   pyfloat \<Rightarrow> error + point list" where
  "transition_state_boundary rnd grid_x grid_y pot transition_energy tolerance =
     boundary_cells rnd grid_x grid_y pot transition_energy tolerance (all_cells grid_x) []"

text \<open>\<open>default_configuration\<close> and \<open>parse_configuration\<close>. A payload is the
  dictionary with the four optional keys.\<close>

record payload =
  payload_grid :: "mapping option"
  payload_gaussians :: "mapping list option"
  payload_stateA :: "mapping option"
  payload_stateB :: "mapping option"

definition default_gaussians :: "rounding \<Rightarrow> mapping list" where
  "default_gaussians rnd =
     [[''amplitude'' \<mapsto> PyFloat (Fin 4), ''sigma'' \<mapsto> PyFloat (rnd (12 / 10)),
       ''x0'' \<mapsto> PyFloat (Fin (- (3 / 2))), ''y0'' \<mapsto> PyFloat (Fin 0)],
      [''amplitude'' \<mapsto> PyFloat (Fin (- (13 / 2))), ''sigma'' \<mapsto> PyFloat (rnd (8 / 10)),
       ''x0'' \<mapsto> PyFloat (Fin 0), ''y0'' \<mapsto> PyFloat (Fin 0)],
      [''amplitude'' \<mapsto> PyFloat (Fin 5), ''sigma'' \<mapsto> PyFloat (Fin 1),
       ''x0'' \<mapsto> PyFloat (rnd (18 / 10)), ''y0'' \<mapsto> PyFloat (rnd (6 / 10))]]"

definition parse_configuration ::
  "rounding \<Rightarrow> payload \<Rightarrow> error + (GridSpec \<times> Gaussian list \<times> CircularState \<times> CircularState)" where
  "parse_configuration rnd p =
     ebind (GridSpec_from_mapping rnd (payload_grid p)) (\<lambda>g.
     ebind (to_gaussians rnd (case payload_gaussians p of None \<Rightarrow> [] | Some items \<Rightarrow> items)) (\<lambda>gs.
     ebind (if gs = [] then to_gaussians rnd (default_gaussians rnd) else Inr gs) (\<lambda>gs'.
     ebind (CircularState_from_mapping rnd (case payload_stateA p of None \<Rightarrow> Map.empty | Some m \<Rightarrow> m))
       (\<lambda>state_a.
     ebind (CircularState_from_mapping rnd (case payload_stateB p of None \<Rightarrow> Map.empty | Some m \<Rightarrow> m))
       (\<lambda>state_b.
       Inr (g, gs', state_a, state_b))))))"

text \<open>\<open>grid_min_max\<close>\<close>

fun min_max_loop :: "pyfloat list \<Rightarrow> pyfloat \<times> pyfloat \<Rightarrow> pyfloat \<times> pyfloat" where
  "min_max_loop [] acc = acc"
| "min_max_loop (v # vs) acc =
     min_max_loop vs
       (if flt v (fst acc) then v else fst acc, if flt (snd acc) v then v else snd acc)"

definition grid_min_max :: "pyfloat list list \<Rightarrow> pyfloat \<times> pyfloat" where
  "grid_min_max vals =
     (let (min_val, max_val) = min_max_loop (concat vals) (PInf, NInf)
      in if feq min_val PInf then (Fin 0, Fin 0) else (min_val, max_val))"

section \<open>Umbrella sampling (sampling.py)\<close>

text \<open>
  The pseudo-random generator is the library's. It enters as two parameters: the
  constructor \<open>Random\<close>, from a seed to a generator state, and \<open>gauss\<close>, which
  draws a value for a mean and a standard deviation and returns the next state.
\<close>

record Sample =
  sample_x :: pyfloat
  sample_y :: pyfloat
  sample_potential :: pyfloat
  sample_bias :: pyfloat

record UmbrellaWindow =
  center_index :: nat
  reaction_coordinate :: pyfloat
  free_energy :: pyfloat
  samples :: "Sample list"

text \<open>\<open>xs[i]\<close> for an index that may be negative.\<close>

definition py_index :: "'a list \<Rightarrow> int \<Rightarrow> error + 'a" where
  "py_index xs i =
     (if 0 \<le> i then py_nth xs (nat i)
      else if - i \<le> int (length xs) then Inr (xs ! nat (int (length xs) + i))
      else Inl IndexError)"

definition normalised :: "rounding \<Rightarrow> point \<Rightarrow> point \<Rightarrow> error + point" where
  "normalised rnd v fallback =
     (let norm = hypot rnd (fst v) (snd v)
      in if feq norm (Fin 0) then Inr fallback
         else ebind (fdiv rnd (fst v) norm) (\<lambda>a.
              ebind (fdiv rnd (snd v) norm) (\<lambda>b. Inr (a, b))))"

definition difference :: "rounding \<Rightarrow> point \<Rightarrow> point \<Rightarrow> point" where
  "difference rnd a b = (fsub rnd (fst a) (fst b), fsub rnd (snd a) (snd b))"

definition estimate_tangent :: "rounding \<Rightarrow> point list \<Rightarrow> nat \<Rightarrow> error + point" where
  "estimate_tangent rnd pth idx =
     ebind
       (if idx = 0 then
          ebind (py_index pth 1) (\<lambda>a. ebind (py_index pth 0) (\<lambda>b. Inr (difference rnd a b)))
        else if int idx = int (length pth) - 1 then
          ebind (py_index pth (- 1)) (\<lambda>a. ebind (py_index pth (- 2)) (\<lambda>b. Inr (difference rnd a b)))
        else
          ebind (py_index pth (int idx + 1)) (\<lambda>a.
          ebind (py_index pth (int idx - 1)) (\<lambda>b. Inr (difference rnd a b))))
       (\<lambda>tangent. normalised rnd tangent (Fin 1, Fin 0))"

text \<open>Lines 44-65: the samples of one window, with the generator state threaded
  through. The accumulator holds the samples, the weights and the energies.\<close>

fun draw_samples ::
  "rounding \<Rightarrow> ('g \<Rightarrow> pyfloat \<Rightarrow> pyfloat \<Rightarrow> pyfloat \<times> 'g) \<Rightarrow> (point \<Rightarrow> error + pyfloat) \<Rightarrow>
   pyfloat \<Rightarrow> pyfloat \<Rightarrow> pyfloat \<Rightarrow> point \<Rightarrow> point \<Rightarrow> point \<Rightarrow> nat \<Rightarrow>
   'g \<times> Sample list \<times> pyfloat list \<times> pyfloat list \<Rightarrow>
   error + ('g \<times> Sample list \<times> pyfloat list \<times> pyfloat list)" where
  "draw_samples rnd gauss potential beta spring_constant window_half_width point tangent perp 0 acc =
     Inr acc"
| "draw_samples rnd gauss potential beta spring_constant window_half_width point tangent perp
     (Suc n) (rng, smpls, weights, es) =
     ebind (fdiv rnd window_half_width (Fin 2)) (\<lambda>half.
       let (displacement_along, rng1) = gauss rng (Fin 0) half;
           (displacement_perp, rng2) = gauss rng1 (Fin 0) window_half_width;
           sample_point =
             (fadd rnd (fadd rnd (fst point) (fmul rnd displacement_along (fst tangent)))
                       (fmul rnd displacement_perp (fst perp)),
              fadd rnd (fadd rnd (snd point) (fmul rnd displacement_along (snd tangent)))
                       (fmul rnd displacement_perp (snd perp)))
       in ebind (potential sample_point) (\<lambda>potential_energy.
            let dx = fsub rnd (fst sample_point) (fst point);
                dy = fsub rnd (snd sample_point) (snd point);
                bias_energy = fmul rnd (fmul rnd (Fin (1 / 2)) spring_constant)
                                (fadd rnd (fmul rnd dx dx) (fmul rnd dy dy))
            in ebind (mexp rnd (fmul rnd (fneg beta) (fadd rnd potential_energy bias_energy)))
                 (\<lambda>weight.
                    draw_samples rnd gauss potential beta spring_constant window_half_width
                      point tangent perp n
                      (rng2,
                       smpls @ [\<lparr>sample_x = fst sample_point, sample_y = snd sample_point,
                                  sample_potential = potential_energy,
                                  sample_bias = bias_energy\<rparr>],
                       weights @ [weight], es @ [potential_energy]))))"

text \<open>\<open>sum\<close> starts from the integer zero and adds from the left. (From version 3.12
  on, CPython compensates the rounding errors of these additions; that changes the
  rounded value of a finite sum only.)\<close>

definition py_sum :: "rounding \<Rightarrow> pyfloat list \<Rightarrow> pyfloat" where
  "py_sum rnd xs = foldl (fadd rnd) (Fin 0) xs"

text \<open>Lines 67-74: the free energy of a window from its weights and energies.\<close>

definition window_free_energy ::
  "rounding \<Rightarrow> pyfloat \<Rightarrow> pyfloat list \<Rightarrow> pyfloat list \<Rightarrow> error + pyfloat" where
  "window_free_energy rnd beta weights es =
     (let partition = py_sum rnd weights
      in if feq partition (Fin 0) then Inr NaN
         else
           ebind (emap (\<lambda>(w, e). ebind (mexp rnd (fmul rnd (fneg beta) e)) (\<lambda>x. Inr (fmul rnd w x)))
                    (zip weights es)) (\<lambda>terms.
           ebind (fdiv rnd (py_sum rnd terms) partition) (\<lambda>expectation.
           ebind (mlog rnd (pymax expectation (rnd (1 / 10 ^ 12)))) (\<lambda>l.
             fdiv rnd (fneg l) beta))))"

text \<open>Lines 32-84: the loop over the images of the path.\<close>

fun umbrella_windows ::
  "rounding \<Rightarrow> ('g \<Rightarrow> pyfloat \<Rightarrow> pyfloat \<Rightarrow> pyfloat \<times> 'g) \<Rightarrow> (point \<Rightarrow> error + pyfloat) \<Rightarrow>
   point list \<Rightarrow> pyfloat \<Rightarrow> pyfloat \<Rightarrow> pyfloat \<Rightarrow> nat \<Rightarrow> nat list \<Rightarrow>
   'g \<times> UmbrellaWindow list \<Rightarrow> error + ('g \<times> UmbrellaWindow list)" where
  "umbrella_windows rnd gauss potential pth beta spring_constant window_half_width
     samples_per_window [] acc = Inr acc"
| "umbrella_windows rnd gauss potential pth beta spring_constant window_half_width
     samples_per_window (idx # rest) (rng, windows) =
     ebind (py_nth pth idx) (\<lambda>point.
     ebind (estimate_tangent rnd pth idx) (\<lambda>tangent.
     ebind (normalised rnd (fneg (snd tangent), fst tangent) (Fin 0, Fin 1)) (\<lambda>perp.
     ebind (draw_samples rnd gauss potential beta spring_constant window_half_width
              point tangent perp samples_per_window (rng, [], [], []))
       (\<lambda>(rng', smpls, weights, es).
     ebind (window_free_energy rnd beta weights es) (\<lambda>fe.
     ebind (if 1 < length pth then int_div rnd idx (int (length pth) - 1) else Inr (Fin 0))
       (\<lambda>rc.
       umbrella_windows rnd gauss potential pth beta spring_constant window_half_width
         samples_per_window rest
         (rng', windows @ [\<lparr>center_index = idx, reaction_coordinate = rc,
                             free_energy = fe, samples = smpls\<rparr>])))))))"

definition umbrella_sampling ::
  "rounding \<Rightarrow> (int \<Rightarrow> 'g) \<Rightarrow> ('g \<Rightarrow> pyfloat \<Rightarrow> pyfloat \<Rightarrow> pyfloat \<times> 'g) \<Rightarrow>
   (point \<Rightarrow> error + pyfloat) \<Rightarrow> point list \<Rightarrow> pyfloat \<Rightarrow> pyfloat \<Rightarrow> pyfloat \<Rightarrow> nat \<Rightarrow>
   error + UmbrellaWindow list" where
  "umbrella_sampling rnd Random gauss potential pth beta spring_constant window_half_width
     samples_per_window =
     ebind (umbrella_windows rnd gauss potential pth beta spring_constant window_half_width
              samples_per_window [0..<length pth] (Random 42, []))
       (\<lambda>(rng, windows). Inr windows)"

section \<open>Nudged elastic band (neb.py)\<close>

record NEBResult =
  path :: "point list"
  energies :: "pyfloat list"
  gradients :: "point list"
  iterations :: nat
  max_force :: pyfloat

text \<open>
  The local variables of \<open>run_neb\<close> that its loops change. \<open>iteration\<close> and
  \<open>max_force\<close> are unbound until the first pass of the outer loop binds them.
\<close>

record neb_locals =
  images :: "point list"
  forces :: "point list"
  iteration :: "nat option"
  cur_max_force :: "pyfloat option"

text \<open>Lines 34-39: the linear interpolation; \<open>index / (n_images - 1)\<close> raises for
  \<open>n_images = 1\<close>.\<close>

definition initial_image :: "rounding \<Rightarrow> point \<Rightarrow> point \<Rightarrow> nat \<Rightarrow> nat \<Rightarrow> error + point" where
  "initial_image rnd start end n_images index =
     ebind (int_div rnd index (int n_images - 1)) (\<lambda>t.
       Inr (fadd rnd (fmul rnd (fst start) (fsub rnd (Fin 1) t)) (fmul rnd (fst end) t),
            fadd rnd (fmul rnd (snd start) (fsub rnd (Fin 1) t)) (fmul rnd (snd end) t)))"

definition initial_images :: "rounding \<Rightarrow> point \<Rightarrow> point \<Rightarrow> nat \<Rightarrow> error + point list" where
  "initial_images rnd start end n_images =
     emap (initial_image rnd start end n_images) [0..<n_images]"

text \<open>Lines 46-65: the total force on the internal image \<open>idx\<close>.\<close>

definition unit_tangent :: "rounding \<Rightarrow> point \<Rightarrow> point \<Rightarrow> error + point" where
  "unit_tangent rnd prev_image next_image =
     (let tangent = (fsub rnd (fst next_image) (fst prev_image),
                     fsub rnd (snd next_image) (snd prev_image));
          tangent_norm = hypot rnd (fst tangent) (snd tangent)
      in if feq tangent_norm (Fin 0) then Inr (Fin 0, Fin 0)
         else ebind (fdiv rnd (fst tangent) tangent_norm) (\<lambda>tx.
              ebind (fdiv rnd (snd tangent) tangent_norm) (\<lambda>ty. Inr (tx, ty))))"

definition total_force ::
  "rounding \<Rightarrow> (point \<Rightarrow> error + point) \<Rightarrow> pyfloat \<Rightarrow> point list \<Rightarrow> nat \<Rightarrow> error + point" where
  "total_force rnd gradient k_spring imgs idx =
     ebind (py_nth imgs (idx - 1)) (\<lambda>prev_image.
     ebind (py_nth imgs (idx + 1)) (\<lambda>next_image.
     ebind (unit_tangent rnd prev_image next_image) (\<lambda>tangent.
     ebind (py_nth imgs idx) (\<lambda>image.
     ebind (gradient image) (\<lambda>grad.
       let grad_parallel_scalar =
             fadd rnd (fmul rnd (fst grad) (fst tangent)) (fmul rnd (snd grad) (snd tangent));
           grad_parallel = (fmul rnd grad_parallel_scalar (fst tangent),
                            fmul rnd grad_parallel_scalar (snd tangent));
           grad_perp = (fsub rnd (fst grad) (fst grad_parallel),
                        fsub rnd (snd grad) (snd grad_parallel));
           dist_forward = hypot rnd (fsub rnd (fst next_image) (fst image))
                                    (fsub rnd (snd next_image) (snd image));
           dist_backward = hypot rnd (fsub rnd (fst image) (fst prev_image))
                                     (fsub rnd (snd image) (snd prev_image));
           spring_force_mag = fmul rnd k_spring (fsub rnd dist_forward dist_backward);
           spring_force = (fmul rnd spring_force_mag (fst tangent),
                           fmul rnd spring_force_mag (snd tangent))
       in Inr (fadd rnd (fneg (fst grad_perp)) (fst spring_force),
               fadd rnd (fneg (snd grad_perp)) (snd spring_force)))))))"

text \<open>Lines 44-67: one pass over the internal images, storing each force and
  keeping the largest force norm seen.\<close>

fun force_pass ::
  "rounding \<Rightarrow> (point \<Rightarrow> error + point) \<Rightarrow> pyfloat \<Rightarrow> point list \<Rightarrow> nat list \<Rightarrow>
   point list \<times> pyfloat \<Rightarrow> error + (point list \<times> pyfloat)" where
  "force_pass rnd gradient k_spring imgs [] acc = Inr acc"
| "force_pass rnd gradient k_spring imgs (idx # rest) acc =
     ebind (total_force rnd gradient k_spring imgs idx) (\<lambda>tf.
       force_pass rnd gradient k_spring imgs rest
         ((fst acc)[idx := tf], pymax (snd acc) (hypot rnd (fst tf) (snd tf))))"

text \<open>Lines 72-74: the position update of the internal images.\<close>

fun move_images :: "rounding \<Rightarrow> pyfloat \<Rightarrow> point list \<Rightarrow> nat list \<Rightarrow> point list \<Rightarrow> point list" where
  "move_images rnd step_size fs [] imgs = imgs"
| "move_images rnd step_size fs (idx # rest) imgs =
     move_images rnd step_size fs rest
       (imgs[idx := (fadd rnd (fst (imgs ! idx)) (fmul rnd step_size (fst (fs ! idx))),
                     fadd rnd (snd (imgs ! idx)) (fmul rnd step_size (snd (fs ! idx))))])"

definition internal :: "nat \<Rightarrow> nat list" where
  "internal n_images = [1..<n_images - 1]"

text \<open>Lines 43-74: the outer loop over \<open>range(max_iter)\<close>, given as the list of
  iteration numbers still to run.\<close>

fun neb_loop ::
  "rounding \<Rightarrow> (point \<Rightarrow> error + point) \<Rightarrow> nat \<Rightarrow> pyfloat \<Rightarrow> pyfloat \<Rightarrow> pyfloat \<Rightarrow>
   nat list \<Rightarrow> neb_locals \<Rightarrow> error + neb_locals" where
  "neb_loop rnd gradient n_images k_spring step_size force_tolerance [] st = Inr st"
| "neb_loop rnd gradient n_images k_spring step_size force_tolerance (it # its) st =
     ebind (force_pass rnd gradient k_spring (images st) (internal n_images) (forces st, Fin 0))
       (\<lambda>(fs, mf).
          let st1 = st\<lparr>forces := fs, iteration := Some it, cur_max_force := Some mf\<rparr>
          in if flt mf force_tolerance then Inr st1
             else neb_loop rnd gradient n_images k_spring step_size force_tolerance its
                    (st1\<lparr>images := move_images rnd step_size fs (internal n_images) (images st1)\<rparr>))"

definition run_neb ::
  "rounding \<Rightarrow> (point \<Rightarrow> error + pyfloat) \<Rightarrow> (point \<Rightarrow> error + point) \<Rightarrow> point \<Rightarrow> point \<Rightarrow>
   nat \<Rightarrow> pyfloat \<Rightarrow> pyfloat \<Rightarrow> nat \<Rightarrow> pyfloat \<Rightarrow> error + NEBResult" where
  "run_neb rnd potential gradient start end n_images k_spring step_size max_iter force_tolerance =
     ebind (initial_images rnd start end n_images) (\<lambda>imgs.
     ebind (neb_loop rnd gradient n_images k_spring step_size force_tolerance [0..<max_iter]
              \<lparr>images = imgs, forces = replicate n_images (Fin 0, Fin 0),
               iteration = None, cur_max_force = None\<rparr>) (\<lambda>st.
     ebind (emap potential (images st)) (\<lambda>es.
     ebind (emap gradient (images st)) (\<lambda>gs.
       case iteration st of
         None \<Rightarrow> Inl UnboundLocalError
       | Some it \<Rightarrow>
           (case cur_max_force st of
              None \<Rightarrow> Inl UnboundLocalError
            | Some mf \<Rightarrow>
                Inr \<lparr>path = images st, energies = es, gradients = gs,
                     iterations = it + 1, max_force = mf\<rparr>)))))"

section \<open>The pipeline (__init__.py)\<close>

text \<open>\<open>_state_entry_point\<close>: the scan over the cells, with the best point and the
  best energy so far. The membership test squares with \<open>**\<close>, which can raise.\<close>

definition inside_state ::
  "rounding \<Rightarrow> (real \<Rightarrow> pyfloat) \<Rightarrow> CircularState \<Rightarrow> pyfloat \<Rightarrow> pyfloat \<Rightarrow> error + bool" where
  "inside_state rnd pow2 state x_val y_val =
     ebind (fsquare pow2 (fsub rnd x_val (CircularState.x0 state))) (\<lambda>a.
     ebind (fsquare pow2 (fsub rnd y_val (CircularState.y0 state))) (\<lambda>b.
     ebind (fsquare pow2 (radius state)) (\<lambda>r2.
       Inr (fle (fadd rnd a b) r2))))"

fun entry_scan ::
  "rounding \<Rightarrow> (real \<Rightarrow> pyfloat) \<Rightarrow> pyfloat list list \<Rightarrow> pyfloat list list \<Rightarrow>
   pyfloat list list \<Rightarrow> CircularState \<Rightarrow> (nat \<times> nat) list \<Rightarrow> point \<times> pyfloat \<Rightarrow> error + (point \<times> pyfloat)" where
  "entry_scan rnd pow2 grid_x grid_y pot state [] best = Inr best"
| "entry_scan rnd pow2 grid_x grid_y pot state ((row, col) # cells) best =
     ebind (cell grid_x row col) (\<lambda>x_val.
     ebind (cell grid_y row col) (\<lambda>y_val.
     ebind (inside_state rnd pow2 state x_val y_val) (\<lambda>inside.
       if inside then
         ebind (cell pot row col) (\<lambda>energy.
           entry_scan rnd pow2 grid_x grid_y pot state cells
             (if flt energy (snd best) then ((x_val, y_val), energy) else best))
       else entry_scan rnd pow2 grid_x grid_y pot state cells best)))"

definition state_entry_point ::
  "rounding \<Rightarrow> (real \<Rightarrow> pyfloat) \<Rightarrow> pyfloat list list \<Rightarrow> pyfloat list list \<Rightarrow>
   pyfloat list list \<Rightarrow> CircularState \<Rightarrow> error + point" where
  "state_entry_point rnd pow2 grid_x grid_y pot state =
     ebind (entry_scan rnd pow2 grid_x grid_y pot state (all_cells grid_x)
              ((CircularState.x0 state, CircularState.y0 state), PInf))
       (\<lambda>best. Inr (fst best))"

text \<open>\<open>max(range(len(energies)), key=...)\<close>: the first index is kept unless a later
  one has a strictly larger key; an empty range raises.\<close>

fun argmax_loop :: "pyfloat list \<Rightarrow> nat list \<Rightarrow> nat \<Rightarrow> nat" where
  "argmax_loop es [] best = best"
| "argmax_loop es (i # rest) best =
     argmax_loop es rest (if flt (es ! best) (es ! i) then i else best)"

definition argmax_index :: "pyfloat list \<Rightarrow> error + nat" where
  "argmax_index es = (if es = [] then Inl ValueError else Inr (argmax_loop es [1..<length es] 0))"

text \<open>The two closures \<open>potential\<close> and \<open>gradient\<close> that \<open>compute_visualisation\<close>
  passes on.\<close>

definition pipeline_potential :: "rounding \<Rightarrow> Gaussian list \<Rightarrow> point \<Rightarrow> error + pyfloat" where
  "pipeline_potential rnd gs point = evaluate_potential_at_point rnd point gs"

definition pipeline_gradient :: "rounding \<Rightarrow> Gaussian list \<Rightarrow> point \<Rightarrow> error + point" where
  "pipeline_gradient rnd gs point = evaluate_gradient_at_point rnd point gs"

record Response =
  grid_x_axis :: "pyfloat list"
  grid_y_axis :: "pyfloat list"
  grid_z :: "pyfloat list list"
  grid_zMin :: pyfloat
  grid_zMax :: pyfloat
  states_A :: CircularState
  states_B :: CircularState
  response_path :: "(pyfloat \<times> pyfloat \<times> pyfloat) list"
  transitionState :: "nat \<times> pyfloat \<times> pyfloat \<times> pyfloat"
  boundary :: "point list"
  umbrella :: "UmbrellaWindow list"
  meta_nebIterations :: nat
  meta_nebMaxForce :: pyfloat

definition compute_visualisation ::
  "rounding \<Rightarrow> (real \<Rightarrow> pyfloat) \<Rightarrow> (int \<Rightarrow> 'g) \<Rightarrow>
   ('g \<Rightarrow> pyfloat \<Rightarrow> pyfloat \<Rightarrow> pyfloat \<times> 'g) \<Rightarrow> payload \<Rightarrow> error + Response" where
  "compute_visualisation rnd pow2 Random gauss p =
     ebind (parse_configuration rnd p) (\<lambda>(grid_spec, gs, state_a, state_b).
     ebind (create_grid rnd grid_spec) (\<lambda>(grid_x, grid_y, x_axis, y_axis).
     ebind (evaluate_potential rnd grid_x grid_y gs) (\<lambda>potential_values.
     ebind (state_entry_point rnd pow2 grid_x grid_y potential_values state_a) (\<lambda>start.
     ebind (state_entry_point rnd pow2 grid_x grid_y potential_values state_b) (\<lambda>end.
     ebind (run_neb rnd (pipeline_potential rnd gs) (pipeline_gradient rnd gs) start end
              18 (Fin (5 / 2)) (rnd (3 / 100)) 600 (rnd (5 / 10 ^ 4))) (\<lambda>neb_result.
     ebind (argmax_index (energies neb_result)) (\<lambda>transition_idx.
     ebind (py_nth (path neb_result) transition_idx) (\<lambda>transition_point.
     ebind (py_nth (energies neb_result) transition_idx) (\<lambda>transition_energy.
     ebind (transition_state_boundary rnd grid_x grid_y potential_values transition_energy
              (rnd (15 / 100))) (\<lambda>boundary_points.
     ebind (umbrella_sampling rnd Random gauss (pipeline_potential rnd gs) (path neb_result)
              (Fin 1) (Fin 5) (Fin (1 / 2)) 120) (\<lambda>umbrellas.
       let (z_min, z_max) = grid_min_max potential_values
       in Inr \<lparr>grid_x_axis = x_axis, grid_y_axis = y_axis, grid_z = potential_values,
               grid_zMin = z_min, grid_zMax = z_max,
               states_A = state_a, states_B = state_b,
               response_path =
                 map (\<lambda>(point, energy). (fst point, snd point, energy))
                   (zip (path neb_result) (energies neb_result)),
               transitionState =
                 (transition_idx, fst transition_point, snd transition_point, transition_energy),
               boundary = boundary_points, umbrella = umbrellas,
               meta_nebIterations = iterations neb_result,
               meta_nebMaxForce = max_force neb_result\<rparr>)))))))))))"

section \<open>Auxiliary notions for the statements\<close>

text \<open>One iteration that does not converge: a force pass followed by the move; and
  \<open>j\<close> such iterations in a row, on the pair of images and forces.\<close>

definition neb_iteration ::
  "rounding \<Rightarrow> (point \<Rightarrow> error + point) \<Rightarrow> nat \<Rightarrow> pyfloat \<Rightarrow> pyfloat \<Rightarrow>
   point list \<times> point list \<Rightarrow> error + (point list \<times> point list)" where
  "neb_iteration rnd gradient n_images k_spring step_size s =
     ebind (force_pass rnd gradient k_spring (fst s) (internal n_images) (snd s, Fin 0))
       (\<lambda>(fs, mf). Inr (move_images rnd step_size fs (internal n_images) (fst s), fs))"

fun neb_advance ::
  "rounding \<Rightarrow> (point \<Rightarrow> error + point) \<Rightarrow> nat \<Rightarrow> pyfloat \<Rightarrow> pyfloat \<Rightarrow> nat \<Rightarrow>
   point list \<times> point list \<Rightarrow> error + (point list \<times> point list)" where
  "neb_advance rnd gradient n_images k_spring step_size 0 s = Inr s"
| "neb_advance rnd gradient n_images k_spring step_size (Suc j) s =
     ebind (neb_iteration rnd gradient n_images k_spring step_size s)
       (neb_advance rnd gradient n_images k_spring step_size j)"

text \<open>The contribution of one feature at a point, for a given \<open>sigma2\<close>: to the
  potential, and to the two components of the gradient.\<close>

definition feature_value :: "rounding \<Rightarrow> Gaussian \<Rightarrow> pyfloat \<Rightarrow> point \<Rightarrow> error + pyfloat" where
  "feature_value rnd gaussian sigma2 p =
     (let dx = fsub rnd (fst p) (Gaussian.x0 gaussian);
          dy = fsub rnd (snd p) (Gaussian.y0 gaussian);
          r2 = fadd rnd (fmul rnd dx dx) (fmul rnd dy dy)
      in ebind (fdiv rnd (fmul rnd (Fin (- (1 / 2))) r2) sigma2) (\<lambda>q.
         ebind (mexp rnd q) (\<lambda>e. Inr (fmul rnd (amplitude gaussian) e))))"

definition feature_gradient :: "rounding \<Rightarrow> Gaussian \<Rightarrow> pyfloat \<Rightarrow> point \<Rightarrow> error + point" where
  "feature_gradient rnd gaussian sigma2 p =
     (let dx = fsub rnd (fst p) (Gaussian.x0 gaussian);
          dy = fsub rnd (snd p) (Gaussian.y0 gaussian);
          r2 = fadd rnd (fmul rnd dx dx) (fmul rnd dy dy)
      in ebind (fdiv rnd (fmul rnd (Fin (- (1 / 2))) r2) sigma2) (\<lambda>q.
         ebind (mexp rnd q) (\<lambda>e.
         ebind (fdiv rnd (fmul rnd (amplitude gaussian) e) sigma2) (\<lambda>coeff.
           Inr (fmul rnd (fneg dx) coeff, fmul rnd (fneg dy) coeff)))))"


text \<open>A number that a payload supplies for a field converts when \<open>float(v)\<close>, or
  \<open>int(v)\<close> for the resolution, returns; a key that is absent has its default, which
  converts. A payload converts when every number it supplies for a field of the
  grid, of a feature or of a state does. \<open>float_or\<close> is the value that the parser
  reads for a float field: the supplied number converted, or the default.\<close>

fun float_ok :: "rounding \<Rightarrow> number option \<Rightarrow> bool" where
  "float_ok rnd None = True"
| "float_ok rnd (Some v) = (case to_float rnd v of Inr a \<Rightarrow> True | Inl e \<Rightarrow> False)"

fun int_ok :: "number option \<Rightarrow> bool" where
  "int_ok None = True"
| "int_ok (Some v) = (case to_int v of Inr i \<Rightarrow> True | Inl e \<Rightarrow> False)"

definition float_or :: "rounding \<Rightarrow> mapping \<Rightarrow> string \<Rightarrow> pyfloat \<Rightarrow> pyfloat" where
  "float_or rnd m key d =
     (case to_float rnd (get_default m key (PyFloat d)) of Inr a \<Rightarrow> a | Inl e \<Rightarrow> d)"

definition converts_gaussian :: "rounding \<Rightarrow> mapping \<Rightarrow> bool" where
  "converts_gaussian rnd m =
     (float_ok rnd (m ''amplitude'') \<and> float_ok rnd (m ''sigma'') \<and> float_ok rnd (m ''x0'') \<and>
      float_ok rnd (m ''y0''))"

definition converts_state :: "rounding \<Rightarrow> mapping option \<Rightarrow> bool" where
  "converts_state rnd mo =
     (case mo of None \<Rightarrow> True
      | Some m \<Rightarrow> float_ok rnd (m ''x0'') \<and> float_ok rnd (m ''y0'') \<and>
                 float_ok rnd (m ''radius''))"

definition converts_grid :: "rounding \<Rightarrow> mapping option \<Rightarrow> bool" where
  "converts_grid rnd mo =
     (case mo of None \<Rightarrow> True
      | Some m \<Rightarrow> float_ok rnd (m ''minimum'') \<and> float_ok rnd (m ''maximum'') \<and>
                 int_ok (m ''resolution''))"

definition converts :: "rounding \<Rightarrow> payload \<Rightarrow> bool" where
  "converts rnd p =
     (converts_grid rnd (payload_grid p) \<and>
      (case payload_gaussians p of None \<Rightarrow> True
       | Some items \<Rightarrow> list_all (converts_gaussian rnd) items) \<and>
      converts_state rnd (payload_stateA p) \<and> converts_state rnd (payload_stateB p))"

text \<open>The two conditions of the configuration error, on the values that the
  parser reads: a grid that is given and not empty with \<open>maximum \<le> minimum\<close>, a
  state with \<open>radius \<le> 0\<close>.\<close>

definition grid_rejected :: "rounding \<Rightarrow> mapping option \<Rightarrow> bool" where
  "grid_rejected rnd mo =
     (case mo of None \<Rightarrow> False
      | Some m \<Rightarrow> m \<noteq> Map.empty \<and>
                 fle (float_or rnd m ''maximum'' (Fin 4)) (float_or rnd m ''minimum'' (Fin (- 4))))"

definition state_rejected :: "rounding \<Rightarrow> mapping option \<Rightarrow> bool" where
  "state_rejected rnd mo =
     (case mo of None \<Rightarrow> False | Some m \<Rightarrow> fle (float_or rnd m ''radius'' (Fin 1)) (Fin 0))"

text \<open>The weight of a sample, as line 55 computes it from the potential and the bias
  that the sample records; and what the loop of \<open>umbrella_sampling\<close> makes of the
  image \<open>idx\<close> of a path of \<open>total_images\<close> images: a window with that index, the
  reaction coordinate of line 76, and the free energy of lines 67-74 for the
  weights and the potential energies of its samples.\<close>

definition sample_weight :: "rounding \<Rightarrow> pyfloat \<Rightarrow> Sample \<Rightarrow> error + pyfloat" where
  "sample_weight rnd beta s =
     mexp rnd (fmul rnd (fneg beta) (fadd rnd (sample_potential s) (sample_bias s)))"

definition window_of :: "rounding \<Rightarrow> pyfloat \<Rightarrow> nat \<Rightarrow> nat \<Rightarrow> UmbrellaWindow \<Rightarrow> bool" where
  "window_of rnd beta total_images idx w =
     (center_index w = idx \<and>
      (if 1 < total_images then int_div rnd idx (int total_images - 1) else Inr (Fin 0))
        = Inr (reaction_coordinate w) \<and>
      (\<exists>weights. emap (sample_weight rnd beta) (samples w) = Inr weights \<and>
         window_free_energy rnd beta weights (map sample_potential (samples w))
           = Inr (free_energy w)))"



section \<open>Properties of the optimiser\<close>

lemma ebind_Inr [simp]: "ebind (Inr v) f = f v" by (simp add: ebind_def)
lemma ebind_Inl [simp]: "ebind (Inl e) f = Inl e" by (simp add: ebind_def)
lemma ebind_eq_Inr: "ebind m f = Inr r \<longleftrightarrow> (\<exists>v. m = Inr v \<and> f v = Inr r)"
  by (cases m) auto

lemma neb_loop_Cons_Inr:
  "neb_loop rnd gradient n k_spring step tol (it # its) st = Inr st' \<longleftrightarrow>
   (\<exists>fs mf. force_pass rnd gradient k_spring (images st) (internal n) (forces st, Fin 0) = Inr (fs, mf) \<and>
      (if flt mf tol then Inr (st\<lparr>forces := fs, iteration := Some it, cur_max_force := Some mf\<rparr>)
       else neb_loop rnd gradient n k_spring step tol its
              (st\<lparr>forces := fs, iteration := Some it, cur_max_force := Some mf,
                 images := move_images rnd step fs (internal n) (images st)\<rparr>)) = Inr st')"
  by (auto simp: ebind_eq_Inr Let_def)

lemma neb_loop_trace:
  "neb_loop rnd gradient n k_spring step tol [a..<a + m] st = Inr st' \<Longrightarrow> 0 < m \<Longrightarrow>
   \<exists>j imgs fs fs' mf. j < m \<and> iteration st' = Some (a + j) \<and>
     neb_advance rnd gradient n k_spring step j (images st, forces st) = Inr (imgs, fs) \<and>
     force_pass rnd gradient k_spring imgs (internal n) (fs, Fin 0) = Inr (fs', mf) \<and>
     cur_max_force st' = Some mf \<and> forces st' = fs' \<and>
     (flt mf tol \<longrightarrow> images st' = imgs) \<and>
     (\<not> flt mf tol \<longrightarrow> j = m - 1 \<and> images st' = move_images rnd step fs' (internal n) imgs) \<and>
     (\<forall>i<j. \<exists>imgsi fsi fsi' mfi.
        neb_advance rnd gradient n k_spring step i (images st, forces st) = Inr (imgsi, fsi) \<and>
        force_pass rnd gradient k_spring imgsi (internal n) (fsi, Fin 0) = Inr (fsi', mfi) \<and>
        \<not> flt mfi tol)"
proof (induction m arbitrary: a st)
  case 0
  then show ?case by simp
next
  case (Suc m)
  have range: "[a..<a + Suc m] = a # [Suc a..<Suc a + m]"
    by (simp add: upt_conv_Cons)
  from Suc.prems(1) have "neb_loop rnd gradient n k_spring step tol (a # [Suc a..<Suc a + m]) st = Inr st'"
    unfolding range .
  then obtain fs1 mf1 where
    pass: "force_pass rnd gradient k_spring (images st) (internal n) (forces st, Fin 0) = Inr (fs1, mf1)"
    and rest: "(if flt mf1 tol then Inr (st\<lparr>forces := fs1, iteration := Some a, cur_max_force := Some mf1\<rparr>)
             else neb_loop rnd gradient n k_spring step tol [Suc a..<Suc a + m]
                    (st\<lparr>forces := fs1, iteration := Some a, cur_max_force := Some mf1,
                       images := move_images rnd step fs1 (internal n) (images st)\<rparr>)) = Inr st'"
    unfolding neb_loop_Cons_Inr by blast
  show ?case
  proof (cases "flt mf1 tol")
    case True
    with rest have "st' = st\<lparr>forces := fs1, iteration := Some a, cur_max_force := Some mf1\<rparr>"
      by simp
    with pass True show ?thesis
      by (intro exI[of _ 0] exI[of _ "images st"] exI[of _ "forces st"] exI[of _ fs1] exI[of _ mf1]) simp
  next
    case False
    let ?st2 = "st\<lparr>forces := fs1, iteration := Some a, cur_max_force := Some mf1,
                  images := move_images rnd step fs1 (internal n) (images st)\<rparr>"
    from rest False have loop: "neb_loop rnd gradient n k_spring step tol [Suc a..<Suc a + m] ?st2 = Inr st'"
      by simp
    have it1: "neb_iteration rnd gradient n k_spring step (images st, forces st)
               = Inr (images ?st2, forces ?st2)"
      by (simp add: neb_iteration_def pass)
    show ?thesis
    proof (cases m)
      case 0
      with loop have "st' = ?st2" by simp
      with pass False 0 show ?thesis
        by (intro exI[of _ 0] exI[of _ "images st"] exI[of _ "forces st"] exI[of _ fs1] exI[of _ mf1]) simp
    next
      case (Suc m')
      then have "0 < m" by simp
      from Suc.IH[OF loop this] obtain j imgs fs fs' mf where
        j: "j < m" "iteration st' = Some (Suc a + j)"
        and adv: "neb_advance rnd gradient n k_spring step j (images ?st2, forces ?st2) = Inr (imgs, fs)"
        and fp: "force_pass rnd gradient k_spring imgs (internal n) (fs, Fin 0) = Inr (fs', mf)"
        and res: "cur_max_force st' = Some mf" "forces st' = fs'"
          "flt mf tol \<longrightarrow> images st' = imgs"
          "\<not> flt mf tol \<longrightarrow> j = m - 1 \<and> images st' = move_images rnd step fs' (internal n) imgs"
        and earlier: "\<forall>i<j. \<exists>imgsi fsi fsi' mfi.
          neb_advance rnd gradient n k_spring step i (images ?st2, forces ?st2) = Inr (imgsi, fsi) \<and>
          force_pass rnd gradient k_spring imgsi (internal n) (fsi, Fin 0) = Inr (fsi', mfi) \<and>
          \<not> flt mfi tol"
        by blast
      have adv': "neb_advance rnd gradient n k_spring step (Suc j) (images st, forces st) = Inr (imgs, fs)"
        using adv it1 by simp
      have earlier': "\<forall>i<Suc j. \<exists>imgsi fsi fsi' mfi.
          neb_advance rnd gradient n k_spring step i (images st, forces st) = Inr (imgsi, fsi) \<and>
          force_pass rnd gradient k_spring imgsi (internal n) (fsi, Fin 0) = Inr (fsi', mfi) \<and>
          \<not> flt mfi tol"
      proof (intro allI impI)
        fix i assume "i < Suc j"
        show "\<exists>imgsi fsi fsi' mfi.
          neb_advance rnd gradient n k_spring step i (images st, forces st) = Inr (imgsi, fsi) \<and>
          force_pass rnd gradient k_spring imgsi (internal n) (fsi, Fin 0) = Inr (fsi', mfi) \<and>
          \<not> flt mfi tol"
        proof (cases i)
          case 0
          with pass False show ?thesis by auto
        next
          case (Suc i')
          with \<open>i < Suc j\<close> have "i' < j" by simp
          with earlier obtain imgsi fsi fsi' mfi where
            "neb_advance rnd gradient n k_spring step i' (images ?st2, forces ?st2) = Inr (imgsi, fsi)"
            "force_pass rnd gradient k_spring imgsi (internal n) (fsi, Fin 0) = Inr (fsi', mfi)"
            "\<not> flt mfi tol" by blast
          with it1 Suc show ?thesis by auto
        qed
      qed
      from j have c1: "Suc j < Suc m" and c2: "iteration st' = Some (a + Suc j)"
        by simp_all
      from res(4) j(1) have c3:
        "\<not> flt mf tol \<longrightarrow> Suc j = Suc m - 1 \<and> images st' = move_images rnd step fs' (internal n) imgs"
        by auto
      note c4 = res(1) and c5 = res(2) and c6 = res(3)
      show ?thesis
        by (intro exI[of _ "Suc j"] exI[of _ imgs] exI[of _ fs] exI[of _ fs'] exI[of _ mf] conjI)
           (fact c1 c2 adv' fp c4 c5 c6 c3 earlier')+
    qed
  qed
qed


lemma run_neb_Inr:
  "run_neb rnd potential gradient start end n k_spring step M tol = Inr r \<Longrightarrow>
   (\<exists>imgs st es gs it mf.
      initial_images rnd start end n = Inr imgs \<and>
      neb_loop rnd gradient n k_spring step tol [0..<M]
        \<lparr>images = imgs, forces = replicate n (Fin 0, Fin 0),
         iteration = None, cur_max_force = None\<rparr> = Inr st \<and>
      emap potential (images st) = Inr es \<and> emap gradient (images st) = Inr gs \<and>
      iteration st = Some it \<and> cur_max_force st = Some mf \<and>
      r = \<lparr>path = images st, energies = es, gradients = gs, iterations = it + 1, max_force = mf\<rparr>)"
  unfolding run_neb_def
  by (auto simp: ebind_eq_Inr split: option.splits)

lemma run_neb_trace:
  assumes "run_neb rnd potential gradient start end n k_spring step M tol = Inr r"
  shows "\<exists>imgs0 imgs fs fs' mf.
     initial_images rnd start end n = Inr imgs0 \<and>
     0 < iterations r \<and> iterations r \<le> M \<and>
     neb_advance rnd gradient n k_spring step (iterations r - 1)
       (imgs0, replicate n (Fin 0, Fin 0)) = Inr (imgs, fs) \<and>
     force_pass rnd gradient k_spring imgs (internal n) (fs, Fin 0) = Inr (fs', mf) \<and>
     max_force r = mf \<and>
     (flt mf tol \<longrightarrow> path r = imgs) \<and>
     (\<not> flt mf tol \<longrightarrow> iterations r = M \<and> path r = move_images rnd step fs' (internal n) imgs) \<and>
     (\<forall>i<iterations r - 1. \<exists>imgsi fsi fsi' mfi.
        neb_advance rnd gradient n k_spring step i (imgs0, replicate n (Fin 0, Fin 0)) = Inr (imgsi, fsi) \<and>
        force_pass rnd gradient k_spring imgsi (internal n) (fsi, Fin 0) = Inr (fsi', mfi) \<and>
        \<not> flt mfi tol)"
proof -
  let ?init = "\<lambda>imgs. \<lparr>images = imgs, forces = replicate n (Fin 0, Fin 0),
         iteration = None, cur_max_force = None\<rparr>"
  obtain imgs0 st es gs it mf0 where
    init: "initial_images rnd start end n = Inr imgs0"
    and loop: "neb_loop rnd gradient n k_spring step tol [0..<M] (?init imgs0) = Inr st"
    and it: "iteration st = Some it" and mf0: "cur_max_force st = Some mf0"
    and r: "r = \<lparr>path = images st, energies = es, gradients = gs, iterations = it + 1, max_force = mf0\<rparr>"
    using run_neb_Inr[OF assms] by blast
  have M: "0 < M"
  proof (rule ccontr)
    assume "\<not> 0 < M"
    with loop have "st = ?init imgs0" by simp
    with it show False by simp
  qed
  from loop have "neb_loop rnd gradient n k_spring step tol [0..<0 + M] (?init imgs0) = Inr st"
    by simp
  from neb_loop_trace[OF this M] obtain j imgs fs fs' mf where
    j: "j < M" "iteration st = Some (0 + j)"
    and adv: "neb_advance rnd gradient n k_spring step j (images (?init imgs0), forces (?init imgs0)) = Inr (imgs, fs)"
    and fp: "force_pass rnd gradient k_spring imgs (internal n) (fs, Fin 0) = Inr (fs', mf)"
    and res: "cur_max_force st = Some mf" "forces st = fs'"
      "flt mf tol \<longrightarrow> images st = imgs"
      "\<not> flt mf tol \<longrightarrow> j = M - 1 \<and> images st = move_images rnd step fs' (internal n) imgs"
    and earlier: "\<forall>i<j. \<exists>imgsi fsi fsi' mfi.
        neb_advance rnd gradient n k_spring step i (images (?init imgs0), forces (?init imgs0)) = Inr (imgsi, fsi) \<and>
        force_pass rnd gradient k_spring imgsi (internal n) (fsi, Fin 0) = Inr (fsi', mfi) \<and>
        \<not> flt mfi tol"
    by blast
  from j it have itj: "it = j" by simp
  have c1: "0 < iterations r" and c2: "iterations r \<le> M" and c0: "iterations r - 1 = j"
    using r itj j(1) by simp_all
  have c3: "neb_advance rnd gradient n k_spring step (iterations r - 1)
       (imgs0, replicate n (Fin 0, Fin 0)) = Inr (imgs, fs)"
    using adv c0 by simp
  have c4: "max_force r = mf" using r res(1) mf0 by simp
  have c5: "flt mf tol \<longrightarrow> path r = imgs" using r res(3) by simp
  have c6: "\<not> flt mf tol \<longrightarrow> iterations r = M \<and> path r = move_images rnd step fs' (internal n) imgs"
    using r res(4) itj M by auto
  have c7: "\<forall>i<iterations r - 1. \<exists>imgsi fsi fsi' mfi.
        neb_advance rnd gradient n k_spring step i (imgs0, replicate n (Fin 0, Fin 0)) = Inr (imgsi, fsi) \<and>
        force_pass rnd gradient k_spring imgsi (internal n) (fsi, Fin 0) = Inr (fsi', mfi) \<and>
        \<not> flt mfi tol"
    using earlier unfolding c0 by simp
  show ?thesis
    by (intro exI[of _ imgs0] exI[of _ imgs] exI[of _ fs] exI[of _ fs'] exI[of _ mf] conjI)
       (fact init c1 c2 c3 fp c4 c5 c6 c7)+
qed

subsection \<open>The optimiser returns when its callbacks do\<close>

lemma feq_zero: "feq a (Fin 0) \<longleftrightarrow> a = Fin 0"
  by (cases a) auto

lemma emap_length: "emap f xs = Inr ys \<Longrightarrow> length ys = length xs"
  by (induction xs arbitrary: ys) (auto simp: ebind_eq_Inr)

lemma emap_nth: "emap f xs = Inr ys \<Longrightarrow> i < length xs \<Longrightarrow> f (xs ! i) = Inr (ys ! i)"
proof (induction xs arbitrary: ys i)
  case Nil
  then show ?case by simp
next
  case (Cons x xs)
  then show ?case by (cases i) (auto simp: ebind_eq_Inr)
qed

lemma emap_total: "(\<And>x. x \<in> set xs \<Longrightarrow> \<exists>y. f x = Inr y) \<Longrightarrow> \<exists>ys. emap f xs = Inr ys"
proof (induction xs)
  case Nil
  then show ?case by simp
next
  case (Cons x xs)
  then obtain y ys where "f x = Inr y" "emap f xs = Inr ys" by (meson list.set_intros)
  then show ?case by simp
qed

lemma unit_tangent_total: "\<exists>t. unit_tangent rnd a b = Inr t"
  by (simp add: unit_tangent_def Let_def fdiv_def feq_zero)

lemma total_force_total:
  assumes "\<forall>p. \<exists>g. gradient p = Inr g" "0 < idx" "idx + 1 < length imgs"
  shows "\<exists>tf. total_force rnd gradient k imgs idx = Inr tf"
proof -
  obtain t where t: "unit_tangent rnd (imgs ! (idx - 1)) (imgs ! (idx + 1)) = Inr t"
    using unit_tangent_total by blast
  obtain g where g: "gradient (imgs ! idx) = Inr g" using assms(1) by blast
  show ?thesis using assms(2,3) t g
    by (simp add: total_force_def py_nth_def Let_def)
qed

lemma force_pass_total:
  assumes "\<forall>p. \<exists>g. gradient p = Inr g" "\<forall>idx\<in>set idxs. 0 < idx \<and> idx + 1 < length imgs"
  shows "\<exists>fs mf. force_pass rnd gradient k imgs idxs acc = Inr (fs, mf) \<and> length fs = length (fst acc)"
  using assms(2)
proof (induction idxs arbitrary: acc)
  case Nil
  then show ?case by (cases acc) simp
next
  case (Cons idx idxs)
  then obtain tf where tf: "total_force rnd gradient k imgs idx = Inr tf"
    using total_force_total[OF assms(1)] by (metis list.set_intros(1))
  from Cons.prems have "\<forall>idx\<in>set idxs. 0 < idx \<and> idx + 1 < length imgs" by simp
  from Cons.IH[OF this, of "((fst acc)[idx := tf], pymax (snd acc) (hypot rnd (fst tf) (snd tf)))"]
  show ?case using tf by simp
qed

lemma internal_range: "idx \<in> set (internal n) \<Longrightarrow> 0 < idx \<and> idx + 1 < n"
  by (auto simp: internal_def)

lemma move_images_length [simp]: "length (move_images rnd step fs idxs imgs) = length imgs"
  by (induction idxs arbitrary: imgs) auto

lemma move_images_nth_other:
  "i \<notin> set idxs \<Longrightarrow> move_images rnd step fs idxs imgs ! i = imgs ! i"
  by (induction idxs arbitrary: imgs) auto

lemma neb_loop_total:
  assumes "\<forall>p. \<exists>g. gradient p = Inr g" "length (images st) = n"
  shows "\<exists>st'. neb_loop rnd gradient n k step tol its st = Inr st' \<and> length (images st') = n"
  using assms(2)
proof (induction its arbitrary: st)
  case Nil
  then show ?case by simp
next
  case (Cons it its)
  have "\<forall>idx\<in>set (internal n). 0 < idx \<and> idx + 1 < length (images st)"
    using Cons.prems internal_range by blast
  from force_pass_total[OF assms(1) this, of rnd k "(forces st, Fin 0)"] obtain fs mf where
    fp: "force_pass rnd gradient k (images st) (internal n) (forces st, Fin 0) = Inr (fs, mf)"
    by blast
  let ?st2 = "st\<lparr>forces := fs, iteration := Some it, cur_max_force := Some mf,
                  images := move_images rnd step fs (internal n) (images st)\<rparr>"
  have "length (images ?st2) = n" using Cons.prems by simp
  from Cons.IH[OF this] obtain st' where
    "neb_loop rnd gradient n k step tol its ?st2 = Inr st'" "length (images st') = n" by blast
  with fp Cons.prems show ?case by (auto simp: Let_def)
qed

lemma initial_images_total:
  assumes "2 \<le> n"
  shows "\<exists>imgs. initial_images rnd start end n = Inr imgs \<and> length imgs = n"
proof -
  have "\<And>i. \<exists>y. initial_image rnd start end n i = Inr y"
    using assms by (simp add: initial_image_def int_div_def)
  then obtain imgs where "emap (initial_image rnd start end n) [0..<n] = Inr imgs"
    using emap_total[of "[0..<n]" "initial_image rnd start end n"] by blast
  then show ?thesis using emap_length[of _ "[0..<n]"] by (auto simp: initial_images_def)
qed

lemma mexp_exact_total: "\<exists>v. mexp Fin a = Inr v"
  by (cases a) auto

lemma potential_loop_exact_total:
  "\<forall>g\<in>set gs. fmul Fin (sigma g) (sigma g) \<noteq> Fin 0 \<Longrightarrow>
   \<exists>v. potential_at_point_loop Fin p gs v0 = Inr v"
proof (induction gs arbitrary: v0)
  case Nil
  then show ?case by simp
next
  case (Cons g gs)
  let ?q = "fquot Fin (fmul Fin (Fin (- (1 / 2)))
              (fadd Fin (fmul Fin (fsub Fin (fst p) (Gaussian.x0 g)) (fsub Fin (fst p) (Gaussian.x0 g)))
                        (fmul Fin (fsub Fin (snd p) (Gaussian.y0 g)) (fsub Fin (snd p) (Gaussian.y0 g)))))
              (fmul Fin (sigma g) (sigma g))"
  obtain e where e: "mexp Fin ?q = Inr e" using mexp_exact_total by blast
  from Cons.prems have rest: "\<forall>g\<in>set gs. fmul Fin (sigma g) (sigma g) \<noteq> Fin 0" by simp
  from Cons.IH[OF rest] obtain v where
    "potential_at_point_loop Fin p gs (fadd Fin v0 (fmul Fin (amplitude g) e)) = Inr v" by blast
  with e Cons.prems show ?case by (simp add: Let_def fdiv_def)
qed

lemma gradient_loop_exact_total:
  "\<forall>g\<in>set gs. fmul Fin (sigma g) (sigma g) \<noteq> Fin 0 \<Longrightarrow>
   \<exists>v. gradient_at_point_loop Fin p gs v0 = Inr v"
proof (induction gs arbitrary: v0)
  case Nil
  then show ?case by simp
next
  case (Cons g gs)
  let ?q = "fquot Fin (fmul Fin (Fin (- (1 / 2)))
              (fadd Fin (fmul Fin (fsub Fin (fst p) (Gaussian.x0 g)) (fsub Fin (fst p) (Gaussian.x0 g)))
                        (fmul Fin (fsub Fin (snd p) (Gaussian.y0 g)) (fsub Fin (snd p) (Gaussian.y0 g)))))
              (fmul Fin (sigma g) (sigma g))"
  obtain e where e: "mexp Fin ?q = Inr e" using mexp_exact_total by blast
  from Cons.prems have rest: "\<forall>g\<in>set gs. fmul Fin (sigma g) (sigma g) \<noteq> Fin 0" by simp
  let ?c = "fquot Fin (fmul Fin (amplitude g) e) (fmul Fin (sigma g) (sigma g))"
  from Cons.IH[OF rest] obtain v where
    "gradient_at_point_loop Fin p gs
       (fadd Fin (fst v0) (fmul Fin (fneg (fsub Fin (fst p) (Gaussian.x0 g))) ?c),
        fadd Fin (snd v0) (fmul Fin (fneg (fsub Fin (snd p) (Gaussian.y0 g))) ?c)) = Inr v" by blast
  with e Cons.prems show ?case by (simp add: Let_def fdiv_def)
qed

lemma move_images_endpoints:
  assumes "length imgs = n" "2 \<le> n"
  shows "hd (move_images rnd step fs (internal n) imgs) = hd imgs"
    and "last (move_images rnd step fs (internal n) imgs) = last imgs"
proof -
  let ?m = "move_images rnd step fs (internal n) imgs"
  have "0 < length imgs" "0 < length ?m" using assms by simp_all
  then have ne: "imgs \<noteq> []" "?m \<noteq> []" by (blast dest: length_greater_0_conv[THEN iffD1])+
  have "0 \<notin> set (internal n)" "n - 1 \<notin> set (internal n)" by (auto simp: internal_def)
  then have "?m ! 0 = imgs ! 0" "?m ! (n - 1) = imgs ! (n - 1)"
    by (simp_all add: move_images_nth_other)
  then show "hd ?m = hd imgs" "last ?m = last imgs"
    using ne assms by (simp_all add: hd_conv_nth last_conv_nth)
qed

lemma force_pass_Inr_length:
  "force_pass rnd gradient k imgs idxs acc = Inr (fs, mf) \<Longrightarrow> length fs = length (fst acc)"
  by (induction idxs arbitrary: acc) (auto simp: ebind_eq_Inr)

lemma neb_advance_endpoints:
  assumes "2 \<le> n"
  shows "neb_advance rnd gradient n k step j (imgs, fs) = Inr (imgs', fs') \<Longrightarrow> length imgs = n \<Longrightarrow>
     length imgs' = n \<and> hd imgs' = hd imgs \<and> last imgs' = last imgs"
proof (induction j arbitrary: imgs fs)
  case 0
  then show ?case by simp
next
  case (Suc j)
  from Suc.prems(1) obtain imgs1 fs1 where
    it: "neb_iteration rnd gradient n k step (imgs, fs) = Inr (imgs1, fs1)"
    and adv: "neb_advance rnd gradient n k step j (imgs1, fs1) = Inr (imgs', fs')"
    by (auto simp: ebind_eq_Inr)
  from it obtain mf where imgs1: "imgs1 = move_images rnd step fs1 (internal n) imgs"
    by (auto simp: neb_iteration_def ebind_eq_Inr)
  then have len: "length imgs1 = n" using Suc.prems(2) by simp
  from Suc.IH[OF adv len] move_images_endpoints[OF Suc.prems(2) assms] imgs1
  show ?case by simp
qed

lemma initial_images_endpoints:
  assumes "2 \<le> n" and "rnd 0 = Fin 0" and "rnd 1 = Fin 1"
    and "rnd sx = Fin sx" and "rnd sy = Fin sy" and "rnd ex = Fin ex" and "rnd ey = Fin ey"
    and "initial_images rnd (Fin sx, Fin sy) (Fin ex, Fin ey) n = Inr imgs"
  shows "length imgs = n \<and> hd imgs = (Fin sx, Fin sy) \<and> last imgs = (Fin ex, Fin ey)"
proof -
  let ?f = "initial_image rnd (Fin sx, Fin sy) (Fin ex, Fin ey) n"
  from assms(8) have em: "emap ?f [0..<n] = Inr imgs" by (simp add: initial_images_def)
  have len: "length imgs = n" using emap_length[OF em] by simp
  have "?f ([0..<n] ! 0) = Inr (imgs ! 0)" using emap_nth[OF em, of 0] assms(1) by simp
  moreover have "?f 0 = Inr (Fin sx, Fin sy)"
    using assms(1-7) by (simp add: initial_image_def int_div_def fsub_def)
  ultimately have first: "imgs ! 0 = (Fin sx, Fin sy)" using assms(1) by simp
  have "?f ([0..<n] ! (n - 1)) = Inr (imgs ! (n - 1))" using emap_nth[OF em, of "n - 1"] assms(1) by simp
  moreover have "real (n - 1) / real_of_int (int n - 1) = 1" using assms(1) by (simp add: of_nat_diff)
  then have "?f (n - 1) = Inr (Fin ex, Fin ey)"
    using assms(1-7) by (simp add: initial_image_def int_div_def fsub_def)
  ultimately have lst: "imgs ! (n - 1) = (Fin ex, Fin ey)" using assms(1) by simp
  from len assms(1) have "imgs \<noteq> []" by auto
  with first lst len show ?thesis by (simp add: hd_conv_nth last_conv_nth)
qed

section \<open>Properties of the potential field\<close>

subsection \<open>One cell of the grid-wide sweep\<close>

lemma shape_set_cell [simp]: "map length (set_cell pot r c v) = map length pot"
proof (cases "r < length pot")
  case True
  then show ?thesis by (simp add: set_cell_def map_update list_update_same_conv)
next
  case False
  then show ?thesis by (simp add: set_cell_def list_update_beyond)
qed

lemma cell_Inr: "cell g r c = Inr v \<longleftrightarrow> r < length g \<and> c < length (g ! r) \<and> v = g ! r ! c"
  by (auto simp: cell_def py_nth_def ebind_eq_Inr)

lemma set_cell_nth:
  "r < length pot \<Longrightarrow> c < length (pot ! r) \<Longrightarrow>
   set_cell pot r c v ! r0 ! c0 = (if r = r0 \<and> c = c0 then v else pot ! r0 ! c0)"
  by (auto simp: set_cell_def nth_list_update)

lemma potential_at_point_loop_Cons:
  "potential_at_point_loop rnd p (g # gs) v =
     ebind (feature_value rnd g (fmul rnd (sigma g) (sigma g)) p)
       (\<lambda>t. potential_at_point_loop rnd p gs (fadd rnd v t))"
  by (simp add: feature_value_def Let_def ebind_def split: sum.splits)

lemma potential_cols_Cons:
  "potential_cols rnd g s2 gx gy row (col # cols) pot =
     ebind (cell gx row col) (\<lambda>x. ebind (cell gy row col) (\<lambda>y.
     ebind (feature_value rnd g s2 (x, y)) (\<lambda>t.
     ebind (cell pot row col) (\<lambda>old.
       potential_cols rnd g s2 gx gy row cols (set_cell pot row col (fadd rnd old t))))))"
  by (simp add: feature_value_def Let_def ebind_def split: sum.splits)

lemma potential_cols_target:
  assumes "cell gx r0 c0 = Inr x" "cell gy r0 c0 = Inr y"
  shows "potential_cols rnd g s2 gx gy row cols pot = Inr pot' \<Longrightarrow> distinct cols \<Longrightarrow>
     map length pot' = map length pot \<and>
     (if row = r0 \<and> c0 \<in> set cols
      then \<exists>t. feature_value rnd g s2 (x, y) = Inr t \<and> pot' ! r0 ! c0 = fadd rnd (pot ! r0 ! c0) t
      else pot' ! r0 ! c0 = pot ! r0 ! c0)"
proof (induction cols arbitrary: pot)
  case Nil
  then show ?case by simp
next
  case (Cons col cols)
  from Cons.prems(1) obtain cx cy t old where
    cx: "cell gx row col = Inr cx" and cy: "cell gy row col = Inr cy"
    and t: "feature_value rnd g s2 (cx, cy) = Inr t"
    and old: "cell pot row col = Inr old"
    and rest: "potential_cols rnd g s2 gx gy row cols (set_cell pot row col (fadd rnd old t)) = Inr pot'"
    unfolding potential_cols_Cons by (auto simp: ebind_eq_Inr)
  from Cons.prems(2) have d: "distinct cols" "col \<notin> set cols" by simp_all
  note ih = Cons.IH[OF rest d(1)]
  from old have bounds: "row < length pot" "col < length (pot ! row)" "old = pot ! row ! col"
    by (simp_all add: cell_Inr)
  have upd: "set_cell pot row col (fadd rnd old t) ! r0 ! c0 =
             (if row = r0 \<and> col = c0 then fadd rnd old t else pot ! r0 ! c0)"
    using set_cell_nth[OF bounds(1,2)] by simp
  show ?case
  proof (cases "row = r0 \<and> col = c0")
    case True
    with cx cy assms have "cx = x" "cy = y" by simp_all
    with True ih d t upd bounds show ?thesis by auto
  next
    case False
    with ih upd show ?thesis by auto
  qed
qed

lemma potential_rows_target:
  assumes "cell gx r0 c0 = Inr x" "cell gy r0 c0 = Inr y" "distinct cols"
  shows "potential_rows rnd g s2 gx gy rows cols pot = Inr pot' \<Longrightarrow> distinct rows \<Longrightarrow>
     map length pot' = map length pot \<and>
     (if r0 \<in> set rows \<and> c0 \<in> set cols
      then \<exists>t. feature_value rnd g s2 (x, y) = Inr t \<and> pot' ! r0 ! c0 = fadd rnd (pot ! r0 ! c0) t
      else pot' ! r0 ! c0 = pot ! r0 ! c0)"
proof (induction rows arbitrary: pot)
  case Nil
  then show ?case by simp
next
  case (Cons row rows)
  from Cons.prems(1) obtain pot1 where
    c: "potential_cols rnd g s2 gx gy row cols pot = Inr pot1"
    and r: "potential_rows rnd g s2 gx gy rows cols pot1 = Inr pot'"
    by (auto simp: ebind_eq_Inr)
  from Cons.prems(2) have d: "distinct rows" "row \<notin> set rows" by simp_all
  note a = potential_cols_target[OF assms(1,2) c assms(3)]
  note b = Cons.IH[OF r d(1)]
  show ?case
  proof (cases "row = r0")
    case True
    with d have "r0 \<notin> set rows" by simp
    with a b True show ?thesis by auto
  next
    case False
    with a b show ?thesis by auto
  qed
qed

lemma potential_features_target:
  assumes "cell gx r0 c0 = Inr x" "cell gy r0 c0 = Inr y"
    and "r0 < grid_rows gx" "c0 < grid_cols gx"
  shows "potential_features rnd gx gy gs pot = Inr pot' \<Longrightarrow>
     map length pot' = map length pot \<and>
     potential_at_point_loop rnd (x, y) gs (pot ! r0 ! c0) = Inr (pot' ! r0 ! c0)"
proof (induction gs arbitrary: pot)
  case Nil
  then show ?case by simp
next
  case (Cons g gs)
  let ?s2 = "fmul rnd (sigma g) (sigma g)"
  from Cons.prems obtain pot1 where
    r: "potential_rows rnd g ?s2 gx gy [0..<grid_rows gx] [0..<grid_cols gx] pot = Inr pot1"
    and f: "potential_features rnd gx gy gs pot1 = Inr pot'"
    by (auto simp: ebind_eq_Inr Let_def)
  have "distinct [0..<grid_cols gx]" "distinct [0..<grid_rows gx]" by simp_all
  from potential_rows_target[OF assms(1,2) this(1) r this(2)] assms(3,4)
  obtain t where t: "feature_value rnd g ?s2 (x, y) = Inr t"
    "pot1 ! r0 ! c0 = fadd rnd (pot ! r0 ! c0) t" "map length pot1 = map length pot"
    by auto
  from Cons.IH[OF f] t show ?case
    by (simp add: potential_at_point_loop_Cons del: potential_at_point_loop.simps)
qed

lemma zero_grid_cell:
  "r < rows \<Longrightarrow> c < cols \<Longrightarrow> replicate rows (replicate cols v) ! r ! c = v"
  by simp

lemma cell_of_shape:
  assumes "map length pot' = map length (replicate rows (replicate cols (v::'a)))" "r < rows" "c < cols"
  shows "cell pot' r c = Inr (pot' ! r ! c)"
proof -
  from assms(1) have len: "length pot' = rows"
    by (metis length_map length_replicate)
  from assms(1) have "map length pot' ! r = map length (replicate rows (replicate cols v)) ! r"
    by simp
  with len assms(2) have "length (pot' ! r) = cols" by simp
  with len assms(2,3) show ?thesis by (simp add: cell_Inr)
qed

lemma gradient_at_point_loop_Cons:
  "gradient_at_point_loop rnd p (g # gs) v =
     ebind (feature_gradient rnd g (fmul rnd (sigma g) (sigma g)) p)
       (\<lambda>t. gradient_at_point_loop rnd p gs (fadd rnd (fst v) (fst t), fadd rnd (snd v) (snd t)))"
  by (simp add: feature_gradient_def Let_def ebind_def split: sum.splits)

lemma gradient_cols_Cons:
  "gradient_cols rnd g s2 gx gy row (col # cols) acc =
     ebind (cell gx row col) (\<lambda>x. ebind (cell gy row col) (\<lambda>y.
     ebind (feature_gradient rnd g s2 (x, y)) (\<lambda>t.
     ebind (cell (fst acc) row col) (\<lambda>oldx.
     ebind (cell (snd acc) row col) (\<lambda>oldy.
       gradient_cols rnd g s2 gx gy row cols
         (set_cell (fst acc) row col (fadd rnd oldx (fst t)),
          set_cell (snd acc) row col (fadd rnd oldy (snd t))))))))"
  by (simp add: feature_gradient_def Let_def ebind_def split: sum.splits)

lemma gradient_cols_target:
  assumes "cell gx r0 c0 = Inr x" "cell gy r0 c0 = Inr y"
  shows "gradient_cols rnd g s2 gx gy row cols acc = Inr acc' \<Longrightarrow> distinct cols \<Longrightarrow>
     map length (fst acc') = map length (fst acc) \<and>
     map length (snd acc') = map length (snd acc) \<and>
     (if row = r0 \<and> c0 \<in> set cols
      then \<exists>t. feature_gradient rnd g s2 (x, y) = Inr t \<and>
             fst acc' ! r0 ! c0 = fadd rnd (fst acc ! r0 ! c0) (fst t) \<and>
             snd acc' ! r0 ! c0 = fadd rnd (snd acc ! r0 ! c0) (snd t)
      else fst acc' ! r0 ! c0 = fst acc ! r0 ! c0 \<and> snd acc' ! r0 ! c0 = snd acc ! r0 ! c0)"
proof (induction cols arbitrary: acc)
  case Nil
  then show ?case by simp
next
  case (Cons col cols)
  from Cons.prems(1) obtain cx cy t oldx oldy where
    cx: "cell gx row col = Inr cx" and cy: "cell gy row col = Inr cy"
    and t: "feature_gradient rnd g s2 (cx, cy) = Inr t"
    and oldx: "cell (fst acc) row col = Inr oldx" and oldy: "cell (snd acc) row col = Inr oldy"
    and rest: "gradient_cols rnd g s2 gx gy row cols
         (set_cell (fst acc) row col (fadd rnd oldx (fst t)),
          set_cell (snd acc) row col (fadd rnd oldy (snd t))) = Inr acc'"
    unfolding gradient_cols_Cons by (auto simp: ebind_eq_Inr)
  from Cons.prems(2) have d: "distinct cols" "col \<notin> set cols" by simp_all
  note ih = Cons.IH[OF rest d(1)]
  from oldx have bx: "row < length (fst acc)" "col < length (fst acc ! row)" "oldx = fst acc ! row ! col"
    by (simp_all add: cell_Inr)
  from oldy have by': "row < length (snd acc)" "col < length (snd acc ! row)" "oldy = snd acc ! row ! col"
    by (simp_all add: cell_Inr)
  have updx: "set_cell (fst acc) row col (fadd rnd oldx (fst t)) ! r0 ! c0 =
             (if row = r0 \<and> col = c0 then fadd rnd oldx (fst t) else fst acc ! r0 ! c0)"
    using set_cell_nth[OF bx(1,2)] by simp
  have updy: "set_cell (snd acc) row col (fadd rnd oldy (snd t)) ! r0 ! c0 =
             (if row = r0 \<and> col = c0 then fadd rnd oldy (snd t) else snd acc ! r0 ! c0)"
    using set_cell_nth[OF by'(1,2)] by simp
  show ?case
  proof (cases "row = r0 \<and> col = c0")
    case True
    with cx cy assms have "cx = x" "cy = y" by simp_all
    with True ih d t updx updy bx by' show ?thesis by auto
  next
    case False
    with ih updx updy show ?thesis by auto
  qed
qed

lemma gradient_rows_target:
  assumes "cell gx r0 c0 = Inr x" "cell gy r0 c0 = Inr y" "distinct cols"
  shows "gradient_rows rnd g s2 gx gy rows cols acc = Inr acc' \<Longrightarrow> distinct rows \<Longrightarrow>
     map length (fst acc') = map length (fst acc) \<and>
     map length (snd acc') = map length (snd acc) \<and>
     (if r0 \<in> set rows \<and> c0 \<in> set cols
      then \<exists>t. feature_gradient rnd g s2 (x, y) = Inr t \<and>
             fst acc' ! r0 ! c0 = fadd rnd (fst acc ! r0 ! c0) (fst t) \<and>
             snd acc' ! r0 ! c0 = fadd rnd (snd acc ! r0 ! c0) (snd t)
      else fst acc' ! r0 ! c0 = fst acc ! r0 ! c0 \<and> snd acc' ! r0 ! c0 = snd acc ! r0 ! c0)"
proof (induction rows arbitrary: acc)
  case Nil
  then show ?case by simp
next
  case (Cons row rows)
  from Cons.prems(1) obtain acc1 where
    c: "gradient_cols rnd g s2 gx gy row cols acc = Inr acc1"
    and r: "gradient_rows rnd g s2 gx gy rows cols acc1 = Inr acc'"
    by (auto simp: ebind_eq_Inr)
  from Cons.prems(2) have d: "distinct rows" "row \<notin> set rows" by simp_all
  note a = gradient_cols_target[OF assms(1,2) c assms(3)]
  note b = Cons.IH[OF r d(1)]
  show ?case
  proof (cases "row = r0")
    case True
    with d have "r0 \<notin> set rows" by simp
    with a b True show ?thesis by auto
  next
    case False
    with a b show ?thesis by auto
  qed
qed

lemma gradient_features_target:
  assumes "cell gx r0 c0 = Inr x" "cell gy r0 c0 = Inr y"
    and "r0 < grid_rows gx" "c0 < grid_cols gx"
  shows "gradient_features rnd gx gy gs acc = Inr acc' \<Longrightarrow>
     map length (fst acc') = map length (fst acc) \<and>
     map length (snd acc') = map length (snd acc) \<and>
     gradient_at_point_loop rnd (x, y) gs (fst acc ! r0 ! c0, snd acc ! r0 ! c0)
       = Inr (fst acc' ! r0 ! c0, snd acc' ! r0 ! c0)"
proof (induction gs arbitrary: acc)
  case Nil
  then show ?case by simp
next
  case (Cons g gs)
  let ?s2 = "fmul rnd (sigma g) (sigma g)"
  from Cons.prems obtain acc1 where
    r: "gradient_rows rnd g ?s2 gx gy [0..<grid_rows gx] [0..<grid_cols gx] acc = Inr acc1"
    and f: "gradient_features rnd gx gy gs acc1 = Inr acc'"
    by (auto simp: ebind_eq_Inr Let_def)
  have "distinct [0..<grid_cols gx]" "distinct [0..<grid_rows gx]" by simp_all
  from gradient_rows_target[OF assms(1,2) this(1) r this(2)] assms(3,4)
  obtain t where t: "feature_gradient rnd g ?s2 (x, y) = Inr t"
    "fst acc1 ! r0 ! c0 = fadd rnd (fst acc ! r0 ! c0) (fst t)"
    "snd acc1 ! r0 ! c0 = fadd rnd (snd acc ! r0 ! c0) (snd t)"
    "map length (fst acc1) = map length (fst acc)" "map length (snd acc1) = map length (snd acc)"
    by auto
  from Cons.IH[OF f] t show ?case
    by (simp add: gradient_at_point_loop_Cons del: gradient_at_point_loop.simps)
qed

section \<open>Properties of the entry point\<close>



lemma flt_not_NaN: "flt a b \<Longrightarrow> a \<noteq> NaN \<and> b \<noteq> NaN"
  by (cases a; cases b) auto


lemma not_flt_trans: "\<not> flt e b \<Longrightarrow> flt a b \<Longrightarrow> \<not> flt e a"
  by (cases a; cases b; cases e) auto



lemma set_all_cells:
  "set (all_cells g) = {(r, c). r < grid_rows g \<and> c < grid_cols g}"
  by (auto simp: all_cells_def)

section \<open>Properties of the configuration parser\<close>

lemma flt_irrefl [simp]: "\<not> flt a a"
  by (cases a) auto

lemma not_fle_pos: "\<not> fle a (Fin 0) \<Longrightarrow> a \<noteq> NaN \<Longrightarrow> flt (Fin 0) a"
  by (cases a) (auto simp: fle_def)

lemma not_fle_gt: "\<not> fle a b \<Longrightarrow> a \<noteq> NaN \<Longrightarrow> b \<noteq> NaN \<Longrightarrow> flt b a"
  by (cases a; cases b) (auto simp: fle_def)

lemma not_flt_pos: "\<not> flt a l \<Longrightarrow> flt (Fin 0) l \<Longrightarrow> a \<noteq> NaN \<Longrightarrow> flt (Fin 0) a"
  by (cases a; cases l) auto

lemma GridSpec_from_mapping_Inr:
  "GridSpec_from_mapping rnd mo = Inr g \<Longrightarrow>
   10 \<le> resolution g \<and> \<not> fle (maximum g) (minimum g)"
  by (auto simp: GridSpec_from_mapping_def ebind_eq_Inr fle_def split: option.splits if_splits)

lemma CircularState_from_mapping_Inr:
  "CircularState_from_mapping rnd m = Inr s \<Longrightarrow> \<not> fle (radius s) (Fin 0)"
  by (auto simp: CircularState_from_mapping_def ebind_eq_Inr split: if_splits)

lemma Gaussian_from_mapping_Inr:
  "Gaussian_from_mapping rnd m = Inr g \<Longrightarrow> \<not> flt (sigma g) (rnd (1 / 10 ^ 6))"
  by (auto simp: Gaussian_from_mapping_def ebind_eq_Inr pymax_def split: if_splits)

lemma emap_set: "emap f xs = Inr ys \<Longrightarrow> y \<in> set ys \<Longrightarrow> \<exists>x\<in>set xs. f x = Inr y"
  by (induction xs arbitrary: ys) (auto simp: ebind_eq_Inr)

lemma to_gaussians_Inr:
  assumes "to_gaussians rnd items = Inr gs" "g \<in> set gs"
  shows "\<not> flt (sigma g) (rnd (1 / 10 ^ 6))"
proof -
  from assms(1) have "emap (Gaussian_from_mapping rnd) items = Inr gs"
    by (simp add: to_gaussians_def)
  from emap_set[OF this assms(2)] obtain m where "Gaussian_from_mapping rnd m = Inr g"
    by blast
  then show ?thesis by (rule Gaussian_from_mapping_Inr)
qed

lemma parse_configuration_Inr:
  "parse_configuration rnd p = Inr (g, gs, a, b) \<longleftrightarrow>
   GridSpec_from_mapping rnd (payload_grid p) = Inr g \<and>
   (\<exists>gs0. to_gaussians rnd (case payload_gaussians p of None \<Rightarrow> [] | Some items \<Rightarrow> items) = Inr gs0 \<and>
      (if gs0 = [] then to_gaussians rnd (default_gaussians rnd) else Inr gs0) = Inr gs) \<and>
   CircularState_from_mapping rnd (case payload_stateA p of None \<Rightarrow> Map.empty | Some m \<Rightarrow> m) = Inr a \<and>
   CircularState_from_mapping rnd (case payload_stateB p of None \<Rightarrow> Map.empty | Some m \<Rightarrow> m) = Inr b"
  unfolding parse_configuration_def by (auto simp: ebind_eq_Inr)

lemma parse_configuration_accepted:
  assumes "parse_configuration rnd p = Inr (g, gs, a, b)"
  shows "10 \<le> resolution g" "\<not> fle (maximum g) (minimum g)"
    "\<not> fle (radius a) (Fin 0)" "\<not> fle (radius b) (Fin 0)"
    "\<forall>f\<in>set gs. \<not> flt (sigma f) (rnd (1 / 10 ^ 6))"
proof -
  from assms obtain gs0 where
    gr: "GridSpec_from_mapping rnd (payload_grid p) = Inr g"
    and g0: "to_gaussians rnd (case payload_gaussians p of None \<Rightarrow> [] | Some items \<Rightarrow> items) = Inr gs0"
    and g1: "(if gs0 = [] then to_gaussians rnd (default_gaussians rnd) else Inr gs0) = Inr gs"
    and sa: "CircularState_from_mapping rnd (case payload_stateA p of None \<Rightarrow> Map.empty | Some m \<Rightarrow> m) = Inr a"
    and sb: "CircularState_from_mapping rnd (case payload_stateB p of None \<Rightarrow> Map.empty | Some m \<Rightarrow> m) = Inr b"
    unfolding parse_configuration_Inr by blast
  from GridSpec_from_mapping_Inr[OF gr] show "10 \<le> resolution g" "\<not> fle (maximum g) (minimum g)"
    by simp_all
  from CircularState_from_mapping_Inr[OF sa] show "\<not> fle (radius a) (Fin 0)" .
  from CircularState_from_mapping_Inr[OF sb] show "\<not> fle (radius b) (Fin 0)" .
  show "\<forall>f\<in>set gs. \<not> flt (sigma f) (rnd (1 / 10 ^ 6))"
  proof (cases "gs0 = []")
    case True
    with g1 have "to_gaussians rnd (default_gaussians rnd) = Inr gs" by simp
    then show ?thesis using to_gaussians_Inr by blast
  next
    case False
    with g1 have "gs0 = gs" by simp
    with g0 show ?thesis using to_gaussians_Inr by blast
  qed
qed

lemma to_float_field:
  "float_ok rnd (m k) \<Longrightarrow> to_float rnd (get_default m k (PyFloat d)) = Inr (float_or rnd m k d)"
  by (cases "m k") (auto simp: get_default_def float_or_def split: sum.splits)

lemma to_float_field_ok:
  "to_float rnd (get_default m k (PyFloat d)) = Inr a \<Longrightarrow> float_ok rnd (m k)"
  by (cases "m k") (auto simp: get_default_def)

lemma to_int_field:
  "int_ok (m k) \<Longrightarrow> \<exists>i. to_int (get_default m k (PyInt d)) = Inr i"
  by (cases "m k") (auto simp: get_default_def split: sum.splits)

lemma to_int_field_ok:
  "to_int (get_default m k (PyInt d)) = Inr i \<Longrightarrow> int_ok (m k)"
  by (cases "m k") (auto simp: get_default_def)

lemma Gaussian_from_mapping_total:
  "converts_gaussian rnd m \<Longrightarrow> \<exists>g. Gaussian_from_mapping rnd m = Inr g"
  by (simp add: converts_gaussian_def Gaussian_from_mapping_def to_float_field)

lemma Gaussian_from_mapping_converts:
  "Gaussian_from_mapping rnd m = Inr g \<Longrightarrow> converts_gaussian rnd m"
  by (auto simp: converts_gaussian_def Gaussian_from_mapping_def ebind_eq_Inr
           dest: to_float_field_ok)

lemma to_gaussians_total:
  "list_all (converts_gaussian rnd) items \<Longrightarrow> \<exists>gs. to_gaussians rnd items = Inr gs"
  unfolding to_gaussians_def
  by (rule emap_total) (simp add: list_all_iff Gaussian_from_mapping_total)

lemma emap_Inr_all: "emap f xs = Inr ys \<Longrightarrow> x \<in> set xs \<Longrightarrow> \<exists>y. f x = Inr y"
  by (induction xs arbitrary: ys) (auto simp: ebind_eq_Inr)

lemma to_gaussians_converts:
  "to_gaussians rnd items = Inr gs \<Longrightarrow> list_all (converts_gaussian rnd) items"
  unfolding to_gaussians_def list_all_iff
  by (blast dest: emap_Inr_all Gaussian_from_mapping_converts)

lemma default_gaussians_total: "\<exists>gs. to_gaussians rnd (default_gaussians rnd) = Inr gs"
  by (rule to_gaussians_total) (simp add: default_gaussians_def converts_gaussian_def)

lemma GridSpec_from_mapping_Inl:
  assumes "converts_grid rnd mo"
  shows "GridSpec_from_mapping rnd mo = Inl e \<longleftrightarrow> e = ValueError \<and> grid_rejected rnd mo"
proof (cases mo)
  case None
  then show ?thesis by (simp add: GridSpec_from_mapping_def grid_rejected_def)
next
  case (Some m)
  with assms have t: "float_ok rnd (m ''minimum'')" "float_ok rnd (m ''maximum'')"
    "int_ok (m ''resolution'')"
    by (simp_all add: converts_grid_def)
  from to_int_field[of m "''resolution''" 60, OF t(3)] obtain i where
    "to_int (get_default m ''resolution'' (PyInt 60)) = Inr i"
    by blast
  with Some t show ?thesis
    by (auto simp: GridSpec_from_mapping_def grid_rejected_def to_float_field)
qed

lemma GridSpec_from_mapping_converts:
  "GridSpec_from_mapping rnd mo = Inr g \<Longrightarrow> converts_grid rnd mo"
proof (cases mo)
  case None
  then show ?thesis by (simp add: converts_grid_def)
next
  case (Some m)
  assume ok: "GridSpec_from_mapping rnd mo = Inr g"
  show ?thesis
  proof (cases "m = Map.empty")
    case True
    with Some show ?thesis by (simp add: converts_grid_def)
  next
    case False
    with ok Some show ?thesis
      by (auto simp: converts_grid_def GridSpec_from_mapping_def ebind_eq_Inr
               split: if_splits dest: to_float_field_ok to_int_field_ok)
  qed
qed

lemma CircularState_from_mapping_Inl:
  assumes "converts_state rnd mo"
  shows "CircularState_from_mapping rnd (case mo of None \<Rightarrow> Map.empty | Some m \<Rightarrow> m) = Inl e
         \<longleftrightarrow> e = ValueError \<and> state_rejected rnd mo"
proof (cases mo)
  case None
  then show ?thesis
    by (simp add: CircularState_from_mapping_def state_rejected_def get_default_def fle_def)
next
  case (Some m)
  with assms have t: "float_ok rnd (m ''x0'')" "float_ok rnd (m ''y0'')"
    "float_ok rnd (m ''radius'')"
    by (simp_all add: converts_state_def)
  with Some show ?thesis
    by (auto simp: CircularState_from_mapping_def state_rejected_def to_float_field)
qed

lemma CircularState_from_mapping_converts:
  "CircularState_from_mapping rnd (case mo of None \<Rightarrow> Map.empty | Some m \<Rightarrow> m) = Inr s \<Longrightarrow>
   converts_state rnd mo"
  by (cases mo)
     (auto simp: converts_state_def CircularState_from_mapping_def ebind_eq_Inr
           split: if_splits dest: to_float_field_ok)

lemma sum_cases_Inl: "(\<exists>e. x = Inl e) \<or> (\<exists>v. x = Inr v)"
  by (cases x) auto

lemma parse_configuration_converts:
  assumes "parse_configuration rnd p = Inr r"
  shows "converts rnd p"
proof -
  obtain g gs a b where r: "r = (g, gs, a, b)" by (cases r) auto
  from assms obtain gs0 where
    gr: "GridSpec_from_mapping rnd (payload_grid p) = Inr g"
    and g0: "to_gaussians rnd (case payload_gaussians p of None \<Rightarrow> [] | Some items \<Rightarrow> items) = Inr gs0"
    and sa: "CircularState_from_mapping rnd (case payload_stateA p of None \<Rightarrow> Map.empty | Some m \<Rightarrow> m) = Inr a"
    and sb: "CircularState_from_mapping rnd (case payload_stateB p of None \<Rightarrow> Map.empty | Some m \<Rightarrow> m) = Inr b"
    unfolding r parse_configuration_Inr by blast
  from to_gaussians_converts[OF g0]
  have "case payload_gaussians p of None \<Rightarrow> True | Some items \<Rightarrow> list_all (converts_gaussian rnd) items"
    by (cases "payload_gaussians p") simp_all
  with GridSpec_from_mapping_converts[OF gr] CircularState_from_mapping_converts[OF sa]
    CircularState_from_mapping_converts[OF sb]
  show ?thesis by (simp add: converts_def)
qed

lemma parse_configuration_Inl:
  assumes "converts rnd p"
  shows "parse_configuration rnd p = Inl e \<longleftrightarrow>
         e = ValueError \<and>
         (grid_rejected rnd (payload_grid p) \<or> state_rejected rnd (payload_stateA p) \<or>
          state_rejected rnd (payload_stateB p))"
proof -
  let ?items = "case payload_gaussians p of None \<Rightarrow> [] | Some items \<Rightarrow> items"
  let ?A = "CircularState_from_mapping rnd (case payload_stateA p of None \<Rightarrow> Map.empty | Some m \<Rightarrow> m)"
  let ?B = "CircularState_from_mapping rnd (case payload_stateB p of None \<Rightarrow> Map.empty | Some m \<Rightarrow> m)"
  from assms have wt: "converts_grid rnd (payload_grid p)"
    "list_all (converts_gaussian rnd) ?items"
    "converts_state rnd (payload_stateA p)" "converts_state rnd (payload_stateB p)"
    by (auto simp: converts_def split: option.splits)
  obtain gs0 where g0: "to_gaussians rnd ?items = Inr gs0"
    using to_gaussians_total[OF wt(2)] by blast
  obtain gs where g1: "(if gs0 = [] then to_gaussians rnd (default_gaussians rnd) else Inr gs0) = Inr gs"
    using default_gaussians_total by (cases "gs0 = []") auto
  note G = GridSpec_from_mapping_Inl[OF wt(1)]
  note A = CircularState_from_mapping_Inl[OF wt(3)]
  note B = CircularState_from_mapping_Inl[OF wt(4)]
  show ?thesis
  proof (cases "GridSpec_from_mapping rnd (payload_grid p)")
    case (Inl e1)
    with G[of e1] show ?thesis by (auto simp: parse_configuration_def)
  next
    case (Inr g)
    with G have ng: "\<not> grid_rejected rnd (payload_grid p)" by auto
    show ?thesis
    proof (cases ?A)
      case (Inl e2)
      with A[of e2] Inr g0 g1 show ?thesis by (auto simp: parse_configuration_def)
    next
      case ra: (Inr a)
      with A have na: "\<not> state_rejected rnd (payload_stateA p)" by auto
      show ?thesis
      proof (cases ?B)
        case (Inl e3)
        with B[of e3] Inr ra g0 g1 show ?thesis by (auto simp: parse_configuration_def)
      next
        case rb: (Inr b)
        with B have nb: "\<not> state_rejected rnd (payload_stateB p)" by auto
        from Inr ra rb g0 g1 ng na nb show ?thesis by (simp add: parse_configuration_def)
      qed
    qed
  qed
qed

lemma compute_visualisation_parse_error:
  "parse_configuration rnd p = Inl e \<Longrightarrow> compute_visualisation rnd pow2 Random gauss p = Inl e"
  by (simp add: compute_visualisation_def)

section \<open>Properties of the umbrella sampling\<close>

text \<open>What the two loops build: the inner loop appends one sample, one weight and
  one energy per draw, the weight being that of the sample; the outer loop appends
  one window per index.\<close>

lemma draw_samples_spec:
  "draw_samples rnd gauss potential beta k hw point tangent perp n (rng, smpls0, weights0, es0)
     = Inr (rng', smpls, weights, es) \<Longrightarrow>
   \<exists>new W. smpls = smpls0 @ new \<and> weights = weights0 @ W \<and>
     es = es0 @ map sample_potential new \<and> emap (sample_weight rnd beta) new = Inr W \<and>
     length new = n"
proof (induction n arbitrary: rng smpls0 weights0 es0)
  case 0
  then show ?case by simp
next
  case (Suc n)
  from Suc.prems obtain x y pe bias wt rng2 where
    w0: "mexp rnd (fmul rnd (fneg beta) (fadd rnd pe bias)) = Inr wt"
    and rest: "draw_samples rnd gauss potential beta k hw point tangent perp n
          (rng2, smpls0 @ [\<lparr>sample_x = x, sample_y = y, sample_potential = pe,
                                sample_bias = bias\<rparr>], weights0 @ [wt], es0 @ [pe])
        = Inr (rng', smpls, weights, es)"
    by (auto simp: ebind_eq_Inr Let_def case_prod_beta)
  define s where "s = \<lparr>sample_x = x, sample_y = y, sample_potential = pe, sample_bias = bias\<rparr>"
  have s: "sample_potential s = pe" by (simp add: s_def)
  from w0 have w: "sample_weight rnd beta s = Inr wt" by (simp add: sample_weight_def s_def)
  note rest = rest[folded s_def]
  from Suc.IH[OF rest] obtain new W where
    n: "smpls = (smpls0 @ [s]) @ new" "weights = (weights0 @ [wt]) @ W"
      "es = (es0 @ [pe]) @ map sample_potential new" "emap (sample_weight rnd beta) new = Inr W"
      "length new = n"
    by blast
  show ?case
    by (intro exI[of _ "s # new"] exI[of _ "wt # W"]) (simp add: n s w)
qed

lemma umbrella_windows_spec:
  "umbrella_windows rnd gauss potential pth beta k hw n idxs (rng, ws0) = Inr (rng', ws) \<Longrightarrow>
   \<exists>new. ws = ws0 @ new \<and> list_all2 (window_of rnd beta (length pth)) idxs new \<and>
     (\<forall>w\<in>set new. length (samples w) = n)"
proof (induction idxs arbitrary: rng ws0)
  case Nil
  then show ?case by simp
next
  case (Cons idx rest)
  from Cons.prems obtain point tangent perp rng1 smpls weights es fe rc where
    d: "draw_samples rnd gauss potential beta k hw point tangent perp n (rng, [], [], [])
          = Inr (rng1, smpls, weights, es)"
    and f: "window_free_energy rnd beta weights es = Inr fe"
    and r: "(if 1 < length pth then int_div rnd idx (int (length pth) - 1) else Inr (Fin 0)) = Inr rc"
    and rest: "umbrella_windows rnd gauss potential pth beta k hw n rest
          (rng1, ws0 @ [\<lparr>center_index = idx, reaction_coordinate = rc, free_energy = fe,
                          samples = smpls\<rparr>]) = Inr (rng', ws)"
    by (auto simp: ebind_eq_Inr split: prod.splits)
  let ?w = "\<lparr>center_index = idx, reaction_coordinate = rc, free_energy = fe, samples = smpls\<rparr>"
  from draw_samples_spec[OF d] have
    sm: "emap (sample_weight rnd beta) smpls = Inr weights" "es = map sample_potential smpls"
      "length smpls = n"
    by auto
  with f r have w: "window_of rnd beta (length pth) idx ?w"
    by (simp add: window_of_def)
  from Cons.IH[OF rest] obtain new where
    n: "ws = (ws0 @ [?w]) @ new" "list_all2 (window_of rnd beta (length pth)) rest new"
      "\<forall>w\<in>set new. length (samples w) = n"
    by blast
  show ?case
    by (rule exI[of _ "?w # new"]) (simp add: n w sm)
qed

lemma umbrella_sampling_spec:
  assumes "umbrella_sampling rnd Random gauss potential pth beta k hw n = Inr ws"
  shows "list_all2 (window_of rnd beta (length pth)) [0..<length pth] ws"
    and "\<forall>w\<in>set ws. length (samples w) = n"
proof -
  from assms obtain rng' where
    "umbrella_windows rnd gauss potential pth beta k hw n [0..<length pth] (Random 42, [])
       = Inr (rng', ws)"
    by (auto simp: umbrella_sampling_def ebind_eq_Inr)
  from umbrella_windows_spec[OF this]
  show "list_all2 (window_of rnd beta (length pth)) [0..<length pth] ws"
    and "\<forall>w\<in>set ws. length (samples w) = n"
    by auto
qed

lemma fquot_NaN [simp]: "fquot rnd a NaN = NaN" "fquot rnd NaN b = NaN"
  by (cases a; simp) (cases b; simp)















subsection \<open>Concrete runs\<close>

text \<open>Three images on the segment from \<open>(0, 0)\<close> to \<open>(2, 0)\<close>, exact rounding. With a
  zero gradient the first pass already sees no force. With a gradient that pushes
  only the images on the axis, the first pass moves the middle image and the
  second pass converges. With a constant gradient the run uses up its budget.\<close>

lemmas neb_eval = run_neb_def initial_images_def initial_image_def int_div_def upt_conv_Cons
  eval_nat_numeral internal_def total_force_def unit_tangent_def py_nth_def fsub_def fdiv_def
  pymax_def Let_def neb_iteration_def

lemma run_neb_flat:
  "run_neb Fin (\<lambda>p. Inr (Fin 0)) (\<lambda>p. Inr (Fin 0, Fin 0)) (Fin 0, Fin 0) (Fin 2, Fin 0)
     3 (Fin 2) (Fin (1/2)) 5 (Fin (1/1000)) =
   Inr \<lparr>path = [(Fin 0, Fin 0), (Fin 1, Fin 0), (Fin 2, Fin 0)], energies = [Fin 0, Fin 0, Fin 0],
        gradients = [(Fin 0, Fin 0), (Fin 0, Fin 0), (Fin 0, Fin 0)],
        iterations = 1, max_force = Fin 0\<rparr>"
  by (simp add: neb_eval)

lemma run_neb_two_passes:
  "run_neb Fin (\<lambda>p. Inr (Fin 0))
     (\<lambda>p. if snd p = Fin 0 then Inr (Fin 0, Fin 1) else Inr (Fin 0, Fin 0))
     (Fin 0, Fin 0) (Fin 2, Fin 0) 3 (Fin 2) (Fin (1/2)) 5 (Fin (1/1000)) =
   Inr \<lparr>path = [(Fin 0, Fin 0), (Fin 1, Fin (-1/2)), (Fin 2, Fin 0)],
        energies = [Fin 0, Fin 0, Fin 0],
        gradients = [(Fin 0, Fin 1), (Fin 0, Fin 0), (Fin 0, Fin 1)],
        iterations = 2, max_force = Fin 0\<rparr>"
  by (simp add: neb_eval)

lemma run_neb_budget:
  "run_neb Fin (\<lambda>p. Inr (Fin 0)) (\<lambda>p. Inr (Fin 0, Fin 1)) (Fin 0, Fin 0) (Fin 2, Fin 0)
     3 (Fin 2) (Fin (1/2)) 2 (Fin (1/1000)) =
   Inr \<lparr>path = [(Fin 0, Fin 0), (Fin 1, Fin (-1)), (Fin 2, Fin 0)],
        energies = [Fin 0, Fin 0, Fin 0],
        gradients = [(Fin 0, Fin 1), (Fin 0, Fin 1), (Fin 0, Fin 1)],
        iterations = 2, max_force = Fin 1\<rparr>"
  by (simp add: neb_eval)

subsection \<open>Convergence is checked before the move\<close>

text \<open>
  Claim C1. Whenever \<open>run_neb\<close> returns, it reports \<open>k = iterations\<close> with
  \<open>1 \<le> k \<le> max_iter\<close>, and exactly \<open>k\<close> force passes were run: each of the first
  \<open>k - 1\<close> passes saw a largest force norm that was not below \<open>force_tolerance\<close> and
  was followed by the move of the internal images; pass \<open>k\<close> was run on the images
  left by those \<open>k - 1\<close> moves, and its largest force norm is the reported
  \<open>max_force\<close>. If that norm is below the tolerance the function stops there and the
  reported path is those images, not moved in pass \<open>k\<close>; otherwise pass \<open>k\<close> was the
  last one allowed and the path has been moved once more.
\<close>

theorem run_neb_convergence_check_before_update:
  assumes "run_neb rnd potential gradient start end n_images k_spring step_size max_iter
             force_tolerance = Inr r"
  shows "\<exists>imgs0 imgs fs fs' mf.
     initial_images rnd start end n_images = Inr imgs0 \<and>
     0 < iterations r \<and> iterations r \<le> max_iter \<and>
     neb_advance rnd gradient n_images k_spring step_size (iterations r - 1)
       (imgs0, replicate n_images (Fin 0, Fin 0)) = Inr (imgs, fs) \<and>
     force_pass rnd gradient k_spring imgs (internal n_images) (fs, Fin 0) = Inr (fs', mf) \<and>
     max_force r = mf \<and>
     (flt mf force_tolerance \<longrightarrow> path r = imgs) \<and>
     (\<not> flt mf force_tolerance \<longrightarrow>
        iterations r = max_iter \<and>
        path r = move_images rnd step_size fs' (internal n_images) imgs) \<and>
     (\<forall>i<iterations r - 1. \<exists>imgsi fsi fsi' mfi.
        neb_advance rnd gradient n_images k_spring step_size i
          (imgs0, replicate n_images (Fin 0, Fin 0)) = Inr (imgsi, fsi) \<and>
        force_pass rnd gradient k_spring imgsi (internal n_images) (fsi, Fin 0) = Inr (fsi', mfi) \<and>
        \<not> flt mfi force_tolerance)"
  using run_neb_trace[OF assms] .

theorem run_neb_convergence_check_before_update_witness:
  "\<exists>r imgs fs fs' mf.
     run_neb Fin (\<lambda>p. Inr (Fin 0))
       (\<lambda>p. if snd p = Fin 0 then Inr (Fin 0, Fin 1) else Inr (Fin 0, Fin 0))
       (Fin 0, Fin 0) (Fin 2, Fin 0) 3 (Fin 2) (Fin (1/2)) 5 (Fin (1/1000)) = Inr r \<and>
     iterations r = 2 \<and>
     neb_advance Fin (\<lambda>p. if snd p = Fin 0 then Inr (Fin 0, Fin 1) else Inr (Fin 0, Fin 0))
       3 (Fin 2) (Fin (1/2)) 1
       ([(Fin 0, Fin 0), (Fin 1, Fin 0), (Fin 2, Fin 0)], replicate 3 (Fin 0, Fin 0)) = Inr (imgs, fs) \<and>
     force_pass Fin (\<lambda>p. if snd p = Fin 0 then Inr (Fin 0, Fin 1) else Inr (Fin 0, Fin 0))
       (Fin 2) imgs (internal 3) (fs, Fin 0) = Inr (fs', mf) \<and>
     flt mf (Fin (1/1000)) \<and> max_force r = mf \<and>
     path r = imgs \<and> imgs = [(Fin 0, Fin 0), (Fin 1, Fin (-1/2)), (Fin 2, Fin 0)]"
proof -
  let ?g = "\<lambda>p. if snd p = Fin 0 then Inr (Fin 0, Fin 1) else Inr (Fin 0, Fin 0 :: pyfloat)"
  let ?r = "\<lparr>path = [(Fin 0, Fin 0), (Fin 1, Fin (-1/2)), (Fin 2, Fin 0)],
        energies = [Fin 0, Fin 0, Fin 0],
        gradients = [(Fin 0, Fin 1), (Fin 0, Fin 0), (Fin 0, Fin 1)],
        iterations = 2, max_force = Fin 0\<rparr>"
  have run: "run_neb Fin (\<lambda>p. Inr (Fin 0)) ?g (Fin 0, Fin 0) (Fin 2, Fin 0) 3 (Fin 2)
               (Fin (1/2)) 5 (Fin (1/1000)) = Inr ?r"
    by (rule run_neb_two_passes)
  have init: "initial_images Fin (Fin 0, Fin 0) (Fin 2, Fin 0) 3
              = Inr [(Fin 0, Fin 0), (Fin 1, Fin 0), (Fin 2, Fin 0)]"
    by (simp add: neb_eval)
  from run_neb_convergence_check_before_update[OF run] obtain imgs0 imgs fs fs' mf where
    "initial_images Fin (Fin 0, Fin 0) (Fin 2, Fin 0) 3 = Inr imgs0"
    and adv: "neb_advance Fin ?g 3 (Fin 2) (Fin (1/2)) (iterations ?r - 1)
       (imgs0, replicate 3 (Fin 0, Fin 0)) = Inr (imgs, fs)"
    and fp: "force_pass Fin ?g (Fin 2) imgs (internal 3) (fs, Fin 0) = Inr (fs', mf)"
    and mf: "max_force ?r = mf"
    and conv: "flt mf (Fin (1/1000)) \<longrightarrow> path ?r = imgs"
    by blast
  with init have imgs0: "imgs0 = [(Fin 0, Fin 0), (Fin 1, Fin 0), (Fin 2, Fin 0)]" by simp
  from mf have lt: "flt mf (Fin (1/1000))" by auto
  with conv have p: "path ?r = imgs" by simp
  from adv imgs0 have adv': "neb_advance Fin ?g 3 (Fin 2) (Fin (1/2)) 1
       ([(Fin 0, Fin 0), (Fin 1, Fin 0), (Fin 2, Fin 0)], replicate 3 (Fin 0, Fin 0)) = Inr (imgs, fs)"
    by simp
  from p have imgs: "imgs = [(Fin 0, Fin 0), (Fin 1, Fin (-1/2)), (Fin 2, Fin 0)]" by simp
  have it: "iterations ?r = 2" by simp
  show ?thesis
    by (intro exI[of _ ?r] exI[of _ imgs] exI[of _ fs] exI[of _ fs'] exI[of _ mf] conjI)
       (fact run it adv' fp lt mf p imgs)+
qed

subsection \<open>An early return means convergence\<close>

text \<open>
  Claim C10. For a call with at least two images and a budget of at least one
  iteration that returns: if the reported iteration count is strictly below
  \<open>max_iter\<close>, the reported \<open>max_force\<close> is strictly below \<open>force_tolerance\<close>;
  otherwise the count equals \<open>max_iter\<close>.
\<close>

theorem run_neb_early_return_only_by_convergence:
  assumes "run_neb rnd potential gradient start end n_images k_spring step_size max_iter
             force_tolerance = Inr r"
    and "2 \<le> n_images" and "1 \<le> max_iter"
  shows "(iterations r < max_iter \<longrightarrow> flt (max_force r) force_tolerance) \<and>
         (\<not> iterations r < max_iter \<longrightarrow> iterations r = max_iter)"
  using run_neb_trace[OF assms(1)] by auto

theorem run_neb_early_return_only_by_convergence_witness:
  "\<exists>r. run_neb Fin (\<lambda>p. Inr (Fin 0)) (\<lambda>p. Inr (Fin 0, Fin 0)) (Fin 0, Fin 0) (Fin 2, Fin 0)
          3 (Fin 2) (Fin (1/2)) 5 (Fin (1/1000)) = Inr r \<and>
        (2::nat) \<le> 3 \<and> (1::nat) \<le> 5 \<and> iterations r < 5 \<and>
        flt (max_force r) (Fin (1/1000))"
proof -
  have two: "(2::nat) \<le> 3" and one: "(1::nat) \<le> 5" by simp_all
  from run_neb_early_return_only_by_convergence[OF run_neb_flat two one]
  show ?thesis using run_neb_flat by simp
qed

subsection \<open>Shape of the result\<close>

text \<open>
  Claim C2, amended. For \<open>n_images \<ge> 2\<close> and \<open>max_iter \<ge> 1\<close>, and callbacks that
  return a value at every point, \<open>run_neb\<close> returns; the path has exactly
  \<open>n_images\<close> points, the iteration count lies between \<open>1\<close> and \<open>max_iter\<close>, and
  there are \<open>n_images\<close> reported energies, each the value the potential callback
  returns at the corresponding image of the returned path. They are finite exactly
  when those values are: the optimiser does not check them.
\<close>

theorem run_neb_returns_path_of_n_images:
  assumes "2 \<le> n_images" and "1 \<le> max_iter"
    and "\<forall>p. \<exists>v. potential p = Inr v" and "\<forall>p. \<exists>g. gradient p = Inr g"
  shows "\<exists>r. run_neb rnd potential gradient start end n_images k_spring step_size max_iter
               force_tolerance = Inr r \<and>
             length (path r) = n_images \<and> 1 \<le> iterations r \<and> iterations r \<le> max_iter \<and>
             length (energies r) = n_images \<and>
             (\<forall>i<n_images. potential (path r ! i) = Inr (energies r ! i))"
proof -
  let ?init = "\<lambda>imgs. \<lparr>images = imgs, forces = replicate n_images (Fin 0, Fin 0),
         iteration = None, cur_max_force = None\<rparr>"
  obtain imgs0 where i0: "initial_images rnd start end n_images = Inr imgs0" "length imgs0 = n_images"
    using initial_images_total[OF assms(1)] by blast
  then have "length (images (?init imgs0)) = n_images" by simp
  from neb_loop_total[OF assms(4) this] obtain st where
    st: "neb_loop rnd gradient n_images k_spring step_size force_tolerance [0..<max_iter] (?init imgs0) = Inr st"
    "length (images st) = n_images" by blast
  obtain es where es: "emap potential (images st) = Inr es"
    using emap_total[of "images st" potential] assms(3) by blast
  obtain gs where gs: "emap gradient (images st) = Inr gs"
    using emap_total[of "images st" gradient] assms(4) by blast
  from st(1) have st0: "neb_loop rnd gradient n_images k_spring step_size force_tolerance [0..<0 + max_iter] (?init imgs0) = Inr st"
    by simp
  have "0 < max_iter" using assms(2) by simp
  from neb_loop_trace[OF st0 this] obtain j mf where
    j: "j < max_iter" "iteration st = Some (0 + j)" "cur_max_force st = Some mf" by blast
  let ?r = "\<lparr>path = images st, energies = es, gradients = gs, iterations = j + 1, max_force = mf\<rparr>"
  have run: "run_neb rnd potential gradient start end n_images k_spring step_size max_iter
               force_tolerance = Inr ?r"
    using i0(1) st(1) es gs j by (simp add: run_neb_def)
  have len: "length es = n_images" using emap_length[OF es] st(2) by simp
  have vals: "\<forall>i<n_images. potential (images st ! i) = Inr (es ! i)"
    using emap_nth[OF es] st(2) by simp
  show ?thesis
    using run st(2) j(1) len vals by (intro exI[of _ ?r]) simp
qed


text \<open>The run of the repository's test: two features, twelve images from
  \<open>(-2, 0)\<close> to \<open>(2, 0)\<close>, at most fifty iterations.\<close>

theorem run_neb_returns_path_of_n_images_witness:
  "(2::nat) \<le> 12 \<and> (1::nat) \<le> 50 \<and>
   (\<forall>p. \<exists>v. pipeline_potential Fin
      [\<lparr>amplitude = Fin (- 6), sigma = Fin 1, x0 = Fin 0, y0 = Fin 0\<rparr>,
       \<lparr>amplitude = Fin 3, sigma = Fin (1 / 2), x0 = Fin (3 / 2), y0 = Fin 0\<rparr>] p = Inr v) \<and>
   (\<forall>p. \<exists>g. pipeline_gradient Fin
      [\<lparr>amplitude = Fin (- 6), sigma = Fin 1, x0 = Fin 0, y0 = Fin 0\<rparr>,
       \<lparr>amplitude = Fin 3, sigma = Fin (1 / 2), x0 = Fin (3 / 2), y0 = Fin 0\<rparr>] p = Inr g) \<and>
   (\<exists>r. run_neb Fin
      (pipeline_potential Fin
        [\<lparr>amplitude = Fin (- 6), sigma = Fin 1, x0 = Fin 0, y0 = Fin 0\<rparr>,
         \<lparr>amplitude = Fin 3, sigma = Fin (1 / 2), x0 = Fin (3 / 2), y0 = Fin 0\<rparr>])
      (pipeline_gradient Fin
        [\<lparr>amplitude = Fin (- 6), sigma = Fin 1, x0 = Fin 0, y0 = Fin 0\<rparr>,
         \<lparr>amplitude = Fin 3, sigma = Fin (1 / 2), x0 = Fin (3 / 2), y0 = Fin 0\<rparr>])
      (Fin (- 2), Fin 0) (Fin 2, Fin 0) 12 (Fin 2) (Fin (2 / 100)) 50 (Fin (1 / 1000)) = Inr r \<and>
      length (path r) = 12 \<and> iterations r \<le> 50 \<and> length (energies r) = 12)"
proof -
  let ?gs = "[\<lparr>amplitude = Fin (- 6), sigma = Fin 1, x0 = Fin 0, y0 = Fin 0\<rparr>,
              \<lparr>amplitude = Fin 3, sigma = Fin (1 / 2), x0 = Fin (3 / 2), y0 = Fin 0\<rparr>]"
  have sig: "\<forall>g\<in>set ?gs. fmul Fin (sigma g) (sigma g) \<noteq> Fin 0" by simp
  have n: "(2::nat) \<le> 12" and m: "(1::nat) \<le> 50" by simp_all
  have pot: "\<forall>p. \<exists>v. pipeline_potential Fin ?gs p = Inr v"
    unfolding pipeline_potential_def evaluate_potential_at_point_def
    using potential_loop_exact_total[OF sig] by blast
  have grad: "\<forall>p. \<exists>g. pipeline_gradient Fin ?gs p = Inr g"
    unfolding pipeline_gradient_def evaluate_gradient_at_point_def
    using gradient_loop_exact_total[OF sig] by blast
  from run_neb_returns_path_of_n_images[OF n m pot grad,
      of Fin "(Fin (- 2), Fin 0)" "(Fin 2, Fin 0)" "Fin 2" "Fin (2 / 100)" "Fin (1 / 1000)"]
  have "\<exists>r. run_neb Fin (pipeline_potential Fin ?gs) (pipeline_gradient Fin ?gs)
      (Fin (- 2), Fin 0) (Fin 2, Fin 0) 12 (Fin 2) (Fin (2 / 100)) 50 (Fin (1 / 1000)) = Inr r \<and>
      length (path r) = 12 \<and> iterations r \<le> 50 \<and> length (energies r) = 12"
    by blast
  with n m pot grad show ?thesis by blast
qed

text \<open>The claim as stated fails: a feature of infinite amplitude gives infinite
  energies at both images, and they are reported as they are.\<close>

theorem run_neb_energies_finite_counterexample:
  "map_sum id energies
     (run_neb Fin
        (pipeline_potential Fin [\<lparr>amplitude = PInf, sigma = Fin 1, x0 = Fin 0, y0 = Fin 0\<rparr>])
        (pipeline_gradient Fin [\<lparr>amplitude = PInf, sigma = Fin 1, x0 = Fin 0, y0 = Fin 0\<rparr>])
        (Fin 0, Fin 0) (Fin 1, Fin 0) 2 (Fin 2) (Fin (1 / 2)) 1 (Fin (1 / 1000)))
   = Inr [PInf, PInf]"
  by (simp add: neb_eval pipeline_potential_def pipeline_gradient_def
        evaluate_potential_at_point_def evaluate_gradient_at_point_def)

subsection \<open>The endpoints stay where they are\<close>

text \<open>
  Claim C3, amended. For \<open>n_images \<ge> 2\<close> and start and end points with finite
  coordinates (which, like \<open>0\<close> and \<open>1\<close>, the rounding leaves as they are, being
  floats), the first and last images equal the start and end points after the
  initialisation, after every iteration, and in the returned path. Whatever the
  coordinates, the move of an iteration leaves the first and last image unchanged.
\<close>

theorem run_neb_endpoints_pinned:
  assumes "2 \<le> n_images"
    and "rnd 0 = Fin 0" and "rnd 1 = Fin 1"
    and "rnd sx = Fin sx" and "rnd sy = Fin sy" and "rnd ex = Fin ex" and "rnd ey = Fin ey"
  shows "(\<forall>imgs0. initial_images rnd (Fin sx, Fin sy) (Fin ex, Fin ey) n_images = Inr imgs0 \<longrightarrow>
            hd imgs0 = (Fin sx, Fin sy) \<and> last imgs0 = (Fin ex, Fin ey) \<and>
            (\<forall>j imgs fs. neb_advance rnd gradient n_images k_spring step_size j
                           (imgs0, replicate n_images (Fin 0, Fin 0)) = Inr (imgs, fs) \<longrightarrow>
               hd imgs = (Fin sx, Fin sy) \<and> last imgs = (Fin ex, Fin ey))) \<and>
         (\<forall>imgs fs. length imgs = n_images \<longrightarrow>
            hd (move_images rnd step_size fs (internal n_images) imgs) = hd imgs \<and>
            last (move_images rnd step_size fs (internal n_images) imgs) = last imgs) \<and>
         (\<forall>r. run_neb rnd potential gradient (Fin sx, Fin sy) (Fin ex, Fin ey) n_images k_spring
                 step_size max_iter force_tolerance = Inr r \<longrightarrow>
            hd (path r) = (Fin sx, Fin sy) \<and> last (path r) = (Fin ex, Fin ey))"
proof (intro conjI allI impI)
  fix imgs0
  assume init: "initial_images rnd (Fin sx, Fin sy) (Fin ex, Fin ey) n_images = Inr imgs0"
  from initial_images_endpoints[OF assms init]
  show "hd imgs0 = (Fin sx, Fin sy)" "last imgs0 = (Fin ex, Fin ey)" by simp_all
next
  fix imgs0 j imgs fs
  assume init: "initial_images rnd (Fin sx, Fin sy) (Fin ex, Fin ey) n_images = Inr imgs0"
    and adv: "neb_advance rnd gradient n_images k_spring step_size j
                (imgs0, replicate n_images (Fin 0, Fin 0)) = Inr (imgs, fs)"
  from initial_images_endpoints[OF assms init] neb_advance_endpoints[OF assms(1) adv]
  show "hd imgs = (Fin sx, Fin sy)" "last imgs = (Fin ex, Fin ey)" by simp_all
next
  fix imgs :: "point list" and fs
  assume "length imgs = n_images"
  from move_images_endpoints[OF this assms(1)]
  show "hd (move_images rnd step_size fs (internal n_images) imgs) = hd imgs"
    "last (move_images rnd step_size fs (internal n_images) imgs) = last imgs" by simp_all
next
  fix r
  assume run: "run_neb rnd potential gradient (Fin sx, Fin sy) (Fin ex, Fin ey) n_images k_spring
                 step_size max_iter force_tolerance = Inr r"
  from run_neb_trace[OF run] obtain imgs0 imgs fs fs' mf where
    init: "initial_images rnd (Fin sx, Fin sy) (Fin ex, Fin ey) n_images = Inr imgs0"
    and adv: "neb_advance rnd gradient n_images k_spring step_size (iterations r - 1)
       (imgs0, replicate n_images (Fin 0, Fin 0)) = Inr (imgs, fs)"
    and p: "flt mf force_tolerance \<longrightarrow> path r = imgs"
      "\<not> flt mf force_tolerance \<longrightarrow>
        iterations r = max_iter \<and> path r = move_images rnd step_size fs' (internal n_images) imgs"
    by blast
  from initial_images_endpoints[OF assms init] neb_advance_endpoints[OF assms(1) adv]
  have e: "length imgs = n_images" "hd imgs = (Fin sx, Fin sy)" "last imgs = (Fin ex, Fin ey)"
    by simp_all
  from move_images_endpoints[OF e(1) assms(1)] e p
  show "hd (path r) = (Fin sx, Fin sy)" "last (path r) = (Fin ex, Fin ey)"
    by (cases "flt mf force_tolerance"; simp)+
qed


theorem run_neb_endpoints_pinned_witness:
  "(2::nat) \<le> 3 \<and> Fin 0 = Fin 0 \<and> Fin 1 = Fin 1 \<and> Fin 2 = Fin 2 \<and>
   (\<exists>r. run_neb Fin (\<lambda>p. Inr (Fin 0))
          (\<lambda>p. if snd p = Fin 0 then Inr (Fin 0, Fin 1) else Inr (Fin 0, Fin 0))
          (Fin 0, Fin 0) (Fin 2, Fin 0) 3 (Fin 2) (Fin (1/2)) 5 (Fin (1/1000)) = Inr r \<and>
        path r ! 1 = (Fin 1, Fin (-1/2)) \<and>
        hd (path r) = (Fin 0, Fin 0) \<and> last (path r) = (Fin 2, Fin 0))"
proof -
  have n: "(2::nat) \<le> 3" by simp
  have e0: "Fin 0 = Fin 0" and e1: "Fin 1 = Fin 1" and e2: "Fin 2 = Fin 2" by simp_all
  from run_neb_endpoints_pinned[OF n e0 e1 e0 e0 e2 e0] run_neb_two_passes
  show ?thesis by simp
qed

text \<open>The claim as stated fails for an end point at infinity: the first image is
  \<open>start * 1 + end * 0\<close>, and infinity times zero is not a number.\<close>

theorem run_neb_endpoints_counterexample:
  "map_sum id path
     (run_neb Fin (pipeline_potential Fin []) (pipeline_gradient Fin [])
        (Fin 0, Fin 0) (PInf, Fin 0) 2 (Fin 2) (Fin (1 / 2)) 1 (Fin (1 / 1000)))
   = Inr [(NaN, Fin 0), (PInf, Fin 0)]"
  by (simp add: neb_eval pipeline_potential_def pipeline_gradient_def
        evaluate_potential_at_point_def evaluate_gradient_at_point_def)

subsection \<open>The grid-wide and the point evaluators agree\<close>

text \<open>
  Claim C4. For every list of features and every cell \<open>(row, col)\<close> of the mesh,
  the value of \<open>evaluate_potential\<close> at the cell is the value of
  \<open>evaluate_potential_at_point\<close> at the point \<open>(grid_x[row][col], grid_y[row][col])\<close>,
  and the two grids of \<open>gradient_potential\<close> hold at the cell the two components of
  \<open>evaluate_gradient_at_point\<close> there: the operations are the same, in the same
  order, so the floats are equal for every rounding. Over the empty list of
  features the potential is \<open>0.0\<close> and the gradient \<open>(0.0, 0.0)\<close> at every point, and
  the grids are all zero.
\<close>

theorem grid_and_point_evaluators_agree:
  "(\<forall>pot row col x y.
      evaluate_potential rnd grid_x grid_y gaussians = Inr pot \<and>
      row < grid_rows grid_x \<and> col < grid_cols grid_x \<and>
      cell grid_x row col = Inr x \<and> cell grid_y row col = Inr y \<longrightarrow>
      (\<exists>v. cell pot row col = Inr v \<and>
           evaluate_potential_at_point rnd (x, y) gaussians = Inr v)) \<and>
   (\<forall>gx gy row col x y.
      gradient_potential rnd grid_x grid_y gaussians = Inr (gx, gy) \<and>
      row < grid_rows grid_x \<and> col < grid_cols grid_x \<and>
      cell grid_x row col = Inr x \<and> cell grid_y row col = Inr y \<longrightarrow>
      (\<exists>a b. cell gx row col = Inr a \<and> cell gy row col = Inr b \<and>
             evaluate_gradient_at_point rnd (x, y) gaussians = Inr (a, b))) \<and>
   (\<forall>p. evaluate_potential_at_point rnd p [] = Inr (Fin 0) \<and>
        evaluate_gradient_at_point rnd p [] = Inr (Fin 0, Fin 0)) \<and>
   evaluate_potential rnd grid_x grid_y [] =
     Inr (replicate (grid_rows grid_x) (replicate (grid_cols grid_x) (Fin 0))) \<and>
   gradient_potential rnd grid_x grid_y [] =
     Inr (replicate (grid_rows grid_x) (replicate (grid_cols grid_x) (Fin 0)),
          replicate (grid_rows grid_x) (replicate (grid_cols grid_x) (Fin 0)))"
proof (intro conjI allI impI)
  fix pot row col x y
  assume a: "evaluate_potential rnd grid_x grid_y gaussians = Inr pot \<and>
      row < grid_rows grid_x \<and> col < grid_cols grid_x \<and>
      cell grid_x row col = Inr x \<and> cell grid_y row col = Inr y"
  let ?z = "replicate (grid_rows grid_x) (replicate (grid_cols grid_x) (Fin 0))"
  from a have f: "potential_features rnd grid_x grid_y gaussians ?z = Inr pot"
    by (simp add: evaluate_potential_def)
  from a have c: "cell grid_x row col = Inr x" "cell grid_y row col = Inr y"
    and b: "row < grid_rows grid_x" "col < grid_cols grid_x" by simp_all
  from potential_features_target[OF c b f] have
    sh: "map length pot = map length ?z"
    and v: "potential_at_point_loop rnd (x, y) gaussians (?z ! row ! col) = Inr (pot ! row ! col)"
    by simp_all
  from v b have "evaluate_potential_at_point rnd (x, y) gaussians = Inr (pot ! row ! col)"
    by (simp add: evaluate_potential_at_point_def)
  moreover from cell_of_shape[OF sh b] have "cell pot row col = Inr (pot ! row ! col)" .
  ultimately show "\<exists>v. cell pot row col = Inr v \<and>
           evaluate_potential_at_point rnd (x, y) gaussians = Inr v" by blast
next
  fix gx gy row col x y
  assume a: "gradient_potential rnd grid_x grid_y gaussians = Inr (gx, gy) \<and>
      row < grid_rows grid_x \<and> col < grid_cols grid_x \<and>
      cell grid_x row col = Inr x \<and> cell grid_y row col = Inr y"
  let ?z = "replicate (grid_rows grid_x) (replicate (grid_cols grid_x) (Fin 0))"
  from a have f: "gradient_features rnd grid_x grid_y gaussians (?z, ?z) = Inr (gx, gy)"
    by (simp add: gradient_potential_def)
  from a have c: "cell grid_x row col = Inr x" "cell grid_y row col = Inr y"
    and b: "row < grid_rows grid_x" "col < grid_cols grid_x" by simp_all
  from gradient_features_target[OF c b f] have
    shx: "map length gx = map length ?z" and shy: "map length gy = map length ?z"
    and v: "gradient_at_point_loop rnd (x, y) gaussians (?z ! row ! col, ?z ! row ! col)
              = Inr (gx ! row ! col, gy ! row ! col)"
    by simp_all
  from v b have "evaluate_gradient_at_point rnd (x, y) gaussians = Inr (gx ! row ! col, gy ! row ! col)"
    by (simp add: evaluate_gradient_at_point_def)
  moreover from cell_of_shape[OF shx b] have "cell gx row col = Inr (gx ! row ! col)" .
  moreover from cell_of_shape[OF shy b] have "cell gy row col = Inr (gy ! row ! col)" .
  ultimately show "\<exists>a b. cell gx row col = Inr a \<and> cell gy row col = Inr b \<and>
             evaluate_gradient_at_point rnd (x, y) gaussians = Inr (a, b)" by blast
qed (simp_all add: evaluate_potential_at_point_def evaluate_gradient_at_point_def
       evaluate_potential_def gradient_potential_def)


text \<open>A mesh of one row and two columns and one feature at the origin.\<close>

lemmas pes_eval = evaluate_potential_def gradient_potential_def evaluate_potential_at_point_def
  evaluate_gradient_at_point_def grid_rows_def grid_cols_def cell_def set_cell_def py_nth_def
  fsub_def fdiv_def Let_def upt_conv_Cons

theorem grid_and_point_evaluators_agree_witness:
  "evaluate_potential Fin [[Fin 0, Fin 1]] [[Fin 0, Fin 0]]
     [\<lparr>amplitude = Fin 3, sigma = Fin 1, x0 = Fin 0, y0 = Fin 0\<rparr>]
     = Inr [[Fin 3, Fin (3 * exp (- (1 / 2)))]] \<and>
   (0::nat) < grid_rows [[Fin 0, Fin 1]] \<and> (1::nat) < grid_cols [[Fin 0, Fin 1]] \<and>
   cell [[Fin 0, Fin 1]] 0 1 = Inr (Fin 1) \<and> cell [[Fin 0, Fin 0]] 0 1 = Inr (Fin 0) \<and>
   (\<exists>v. cell [[Fin 3, Fin (3 * exp (- (1 / 2)))]] 0 1 = Inr v \<and>
        evaluate_potential_at_point Fin (Fin 1, Fin 0)
          [\<lparr>amplitude = Fin 3, sigma = Fin 1, x0 = Fin 0, y0 = Fin 0\<rparr>] = Inr v) \<and>
   (\<exists>gx gy a b.
      gradient_potential Fin [[Fin 0, Fin 1]] [[Fin 0, Fin 0]]
        [\<lparr>amplitude = Fin 3, sigma = Fin 1, x0 = Fin 0, y0 = Fin 0\<rparr>] = Inr (gx, gy) \<and>
      cell gx 0 1 = Inr a \<and> cell gy 0 1 = Inr b \<and>
      evaluate_gradient_at_point Fin (Fin 1, Fin 0)
        [\<lparr>amplitude = Fin 3, sigma = Fin 1, x0 = Fin 0, y0 = Fin 0\<rparr>] = Inr (a, b))"
proof -
  let ?gx = "[[Fin 0, Fin 1]]" and ?gy = "[[Fin 0, Fin 0]]"
  let ?gs = "[\<lparr>amplitude = Fin 3, sigma = Fin 1, x0 = Fin 0, y0 = Fin 0\<rparr>]"
  let ?pot = "[[Fin 3, Fin (3 * exp (- (1 / 2)))]]"
  have ev: "evaluate_potential Fin ?gx ?gy ?gs = Inr ?pot"
    by (simp add: pes_eval)
  have b: "(0::nat) < grid_rows ?gx" "(1::nat) < grid_cols ?gx"
    by (simp_all add: grid_rows_def grid_cols_def)
  have c: "cell ?gx 0 1 = Inr (Fin 1)" "cell ?gy 0 1 = Inr (Fin 0)"
    by (simp_all add: cell_def py_nth_def)
  obtain gx gy where gr: "gradient_potential Fin ?gx ?gy ?gs = Inr (gx, gy)"
    by (simp add: pes_eval)
  note agree = grid_and_point_evaluators_agree[of Fin ?gx ?gy ?gs]
  from agree ev b c have p: "\<exists>v. cell ?pot 0 1 = Inr v \<and>
        evaluate_potential_at_point Fin (Fin 1, Fin 0) ?gs = Inr v"
    by blast
  from agree gr b c have g: "\<exists>a b. cell gx 0 1 = Inr a \<and> cell gy 0 1 = Inr b \<and>
      evaluate_gradient_at_point Fin (Fin 1, Fin 0) ?gs = Inr (a, b)"
    by blast
  from ev b c p g gr show ?thesis by blast
qed





subsection \<open>Validation of the configuration\<close>

text \<open>
  Claim C9: \<open>parse_configuration\<close> raises exactly when a state has \<open>radius \<le> 0\<close> or
  the grid has \<open>maximum \<le> minimum\<close>, and every configuration that it accepts has
  \<open>radius > 0\<close>. The guard of \<open>CircularState.from_mapping\<close> is \<open>radius <= 0\<close>, with
  the message \<open>State radius must be positive.\<close>; a comparison with not-a-number is
  false, so the guard lets not-a-number through. On the payload
  \<open>{"stateA": {"radius": nan}}\<close>, under every rounding, the parser returns the
  default grid, the state A at the origin with the radius not-a-number, and the
  default state B; that radius does not compare above zero.
\<close>

theorem parse_configuration_accepts_nan_radius:
  "(\<exists>gs. parse_configuration rnd
      \<lparr>payload_grid = None, payload_gaussians = None,
       payload_stateA = Some [''radius'' \<mapsto> PyFloat NaN], payload_stateB = None\<rparr>
    = Inr (\<lparr>minimum = Fin (- 4), maximum = Fin 4, resolution = 60\<rparr>, gs,
           \<lparr>x0 = Fin 0, y0 = Fin 0, radius = NaN\<rparr>,
           \<lparr>x0 = Fin 0, y0 = Fin 0, radius = Fin 1\<rparr>)) \<and>
   \<not> flt (Fin 0) NaN \<and> \<not> fle NaN (Fin 0)"
  by (simp add: parse_configuration_def GridSpec_from_mapping_def
        CircularState_from_mapping_def Gaussian_from_mapping_def to_gaussians_def
        default_gaussians_def get_default_def fle_def)

text \<open>
  What the parser does ensure. When every supplied number converts, it raises
  exactly when a state has \<open>radius \<le> 0\<close> or a grid that is given and not empty has
  \<open>maximum \<le> minimum\<close>, and the error is the \<open>ValueError\<close>; an integer is converted
  before it is compared. When a supplied number does not convert, it raises as
  well. An error of the parser is the result of \<open>compute_visualisation\<close>. For every
  configuration that is accepted, \<open>resolution \<ge> 10\<close>, and \<open>radius > 0\<close>,
  \<open>maximum > minimum\<close> and \<open>sigma > 0\<close> hold for every such value that is a number.
\<close>

lemma parse_configuration_validation:
  "(converts rnd p \<longrightarrow>
      (\<forall>e. parse_configuration rnd p = Inl e \<longleftrightarrow>
           e = ValueError \<and>
           (grid_rejected rnd (payload_grid p) \<or> state_rejected rnd (payload_stateA p) \<or>
            state_rejected rnd (payload_stateB p)))) \<and>
   (\<not> converts rnd p \<longrightarrow> (\<exists>e. parse_configuration rnd p = Inl e)) \<and>
   (\<forall>e. parse_configuration rnd p = Inl e \<longrightarrow>
        compute_visualisation rnd pow2 Random gauss p = Inl e) \<and>
   (\<forall>g gs a b. parse_configuration rnd p = Inr (g, gs, a, b) \<longrightarrow>
      10 \<le> resolution g \<and>
      (maximum g \<noteq> NaN \<and> minimum g \<noteq> NaN \<longrightarrow> flt (minimum g) (maximum g)) \<and>
      (radius a \<noteq> NaN \<longrightarrow> flt (Fin 0) (radius a)) \<and>
      (radius b \<noteq> NaN \<longrightarrow> flt (Fin 0) (radius b)) \<and>
      (flt (Fin 0) (rnd (1 / 10 ^ 6)) \<longrightarrow>
         (\<forall>f\<in>set gs. sigma f \<noteq> NaN \<longrightarrow> flt (Fin 0) (sigma f))))"
proof (intro conjI)
  show "converts rnd p \<longrightarrow>
      (\<forall>e. parse_configuration rnd p = Inl e \<longleftrightarrow>
           e = ValueError \<and>
           (grid_rejected rnd (payload_grid p) \<or> state_rejected rnd (payload_stateA p) \<or>
            state_rejected rnd (payload_stateB p)))"
    using parse_configuration_Inl by blast
  show "\<not> converts rnd p \<longrightarrow> (\<exists>e. parse_configuration rnd p = Inl e)"
    using parse_configuration_converts sum_cases_Inl[of "parse_configuration rnd p"] by blast
  show "\<forall>e. parse_configuration rnd p = Inl e \<longrightarrow>
        compute_visualisation rnd pow2 Random gauss p = Inl e"
    using compute_visualisation_parse_error by blast
  show "\<forall>g gs a b. parse_configuration rnd p = Inr (g, gs, a, b) \<longrightarrow>
      10 \<le> resolution g \<and>
      (maximum g \<noteq> NaN \<and> minimum g \<noteq> NaN \<longrightarrow> flt (minimum g) (maximum g)) \<and>
      (radius a \<noteq> NaN \<longrightarrow> flt (Fin 0) (radius a)) \<and>
      (radius b \<noteq> NaN \<longrightarrow> flt (Fin 0) (radius b)) \<and>
      (flt (Fin 0) (rnd (1 / 10 ^ 6)) \<longrightarrow>
         (\<forall>f\<in>set gs. sigma f \<noteq> NaN \<longrightarrow> flt (Fin 0) (sigma f)))"
  proof (intro allI impI)
    fix g gs a b assume ok: "parse_configuration rnd p = Inr (g, gs, a, b)"
    note acc = parse_configuration_accepted[OF ok]
    have mm: "maximum g \<noteq> NaN \<and> minimum g \<noteq> NaN \<longrightarrow> flt (minimum g) (maximum g)"
      using acc(2) not_fle_gt by blast
    have ra: "radius a \<noteq> NaN \<longrightarrow> flt (Fin 0) (radius a)"
      using acc(3) not_fle_pos by blast
    have rb: "radius b \<noteq> NaN \<longrightarrow> flt (Fin 0) (radius b)"
      using acc(4) not_fle_pos by blast
    have sg: "flt (Fin 0) (rnd (1 / 10 ^ 6)) \<longrightarrow>
         (\<forall>f\<in>set gs. sigma f \<noteq> NaN \<longrightarrow> flt (Fin 0) (sigma f))"
      using acc(5) not_flt_pos by blast
    show "10 \<le> resolution g \<and>
      (maximum g \<noteq> NaN \<and> minimum g \<noteq> NaN \<longrightarrow> flt (minimum g) (maximum g)) \<and>
      (radius a \<noteq> NaN \<longrightarrow> flt (Fin 0) (radius a)) \<and>
      (radius b \<noteq> NaN \<longrightarrow> flt (Fin 0) (radius b)) \<and>
      (flt (Fin 0) (rnd (1 / 10 ^ 6)) \<longrightarrow>
         (\<forall>f\<in>set gs. sigma f \<noteq> NaN \<longrightarrow> flt (Fin 0) (sigma f)))"
      by (intro conjI) (fact acc(1) mm ra rb sg)+
  qed
qed

text \<open>A payload whose radius is the integer zero converts and is rejected, and so
  is the whole computation; a payload whose resolution is infinite does not convert
  and is rejected; with integer grid bounds and the integer radius two the payload
  is accepted, and the resolution of five that it asks for becomes ten.\<close>

lemmas parse_eval = parse_configuration_def GridSpec_from_mapping_def
  CircularState_from_mapping_def Gaussian_from_mapping_def to_gaussians_def
  default_gaussians_def get_default_def pymax_def fle_def converts_def converts_grid_def
  converts_state_def converts_gaussian_def grid_rejected_def state_rejected_def float_or_def

lemma parse_configuration_validation_example:
  "converts Fin
     \<lparr>payload_grid = Some [''minimum'' \<mapsto> PyInt 0, ''maximum'' \<mapsto> PyInt 1,
                           ''resolution'' \<mapsto> PyInt 5],
      payload_gaussians = None,
      payload_stateA = Some [''radius'' \<mapsto> PyInt 0], payload_stateB = None\<rparr> \<and>
   state_rejected Fin (Some [''radius'' \<mapsto> PyInt 0]) \<and>
   parse_configuration Fin
     \<lparr>payload_grid = Some [''minimum'' \<mapsto> PyInt 0, ''maximum'' \<mapsto> PyInt 1,
                           ''resolution'' \<mapsto> PyInt 5],
      payload_gaussians = None,
      payload_stateA = Some [''radius'' \<mapsto> PyInt 0], payload_stateB = None\<rparr>
     = Inl ValueError \<and>
   compute_visualisation Fin exact_pow2 (\<lambda>seed. seed) (\<lambda>g mu sd. (mu, g))
     \<lparr>payload_grid = Some [''minimum'' \<mapsto> PyInt 0, ''maximum'' \<mapsto> PyInt 1,
                           ''resolution'' \<mapsto> PyInt 5],
      payload_gaussians = None,
      payload_stateA = Some [''radius'' \<mapsto> PyInt 0], payload_stateB = None\<rparr>
     = Inl ValueError \<and>
   \<not> converts Fin
     \<lparr>payload_grid = Some [''resolution'' \<mapsto> PyFloat PInf],
      payload_gaussians = None, payload_stateA = None, payload_stateB = None\<rparr> \<and>
   (\<exists>e. parse_configuration Fin
     \<lparr>payload_grid = Some [''resolution'' \<mapsto> PyFloat PInf],
      payload_gaussians = None, payload_stateA = None, payload_stateB = None\<rparr> = Inl e) \<and>
   (\<exists>g gs a b.
      parse_configuration Fin
        \<lparr>payload_grid = Some [''minimum'' \<mapsto> PyInt 0, ''maximum'' \<mapsto> PyInt 1,
                              ''resolution'' \<mapsto> PyInt 5],
         payload_gaussians = None,
         payload_stateA = Some [''radius'' \<mapsto> PyInt 2], payload_stateB = None\<rparr>
        = Inr (g, gs, a, b) \<and>
      resolution g = 10 \<and> flt (minimum g) (maximum g) \<and> flt (Fin 0) (radius a) \<and>
      flt (Fin 0) (radius b) \<and> (\<forall>f\<in>set gs. flt (Fin 0) (sigma f)))"
proof -
  let ?grid = "Some [''minimum'' \<mapsto> PyInt 0, ''maximum'' \<mapsto> PyInt 1,
                     ''resolution'' \<mapsto> PyInt 5]"
  let ?bad = "\<lparr>payload_grid = ?grid, payload_gaussians = None,
      payload_stateA = Some [''radius'' \<mapsto> PyInt 0], payload_stateB = None\<rparr>"
  let ?inf = "\<lparr>payload_grid = Some [''resolution'' \<mapsto> PyFloat PInf],
      payload_gaussians = None, payload_stateA = None, payload_stateB = None\<rparr>"
  let ?good = "\<lparr>payload_grid = ?grid, payload_gaussians = None,
      payload_stateA = Some [''radius'' \<mapsto> PyInt 2], payload_stateB = None\<rparr>"
  let ?Random = "\<lambda>seed::int. seed" and ?gauss = "\<lambda>(g::int) (mu::pyfloat) (sd::pyfloat). (mu, g)"
  have wt: "converts Fin ?bad" by (simp add: parse_eval)
  have rej: "state_rejected Fin (Some [''radius'' \<mapsto> PyInt 0])" by (simp add: parse_eval)
  note bad = parse_configuration_validation[of Fin ?bad exact_pow2 ?Random ?gauss]
  from bad wt rej have err: "parse_configuration Fin ?bad = Inl ValueError" by simp
  with bad have cv: "compute_visualisation Fin exact_pow2 ?Random ?gauss ?bad = Inl ValueError"
    by blast
  have nc: "\<not> converts Fin ?inf" by (simp add: parse_eval)
  note inf = parse_configuration_validation[of Fin ?inf exact_pow2 ?Random ?gauss]
  from inf nc have ie: "\<exists>e. parse_configuration Fin ?inf = Inl e" by blast
  obtain g gs a b where ok: "parse_configuration Fin ?good = Inr (g, gs, a, b)"
    and res: "resolution g = 10"
    and fin: "maximum g \<noteq> NaN" "minimum g \<noteq> NaN" "radius a \<noteq> NaN" "radius b \<noteq> NaN"
      "\<forall>f\<in>set gs. sigma f \<noteq> NaN"
    by (simp add: parse_eval)
  have lit: "flt (Fin 0) (Fin (1 / 10 ^ 6))" by simp
  note good = parse_configuration_validation[of Fin ?good exact_pow2 ?Random ?gauss]
  from good ok fin lit have
    "flt (minimum g) (maximum g) \<and> flt (Fin 0) (radius a) \<and> flt (Fin 0) (radius b) \<and>
     (\<forall>f\<in>set gs. flt (Fin 0) (sigma f))"
    by blast
  with ok res have "\<exists>g gs a b. parse_configuration Fin ?good = Inr (g, gs, a, b) \<and>
      resolution g = 10 \<and> flt (minimum g) (maximum g) \<and> flt (Fin 0) (radius a) \<and>
      flt (Fin 0) (radius b) \<and> (\<forall>f\<in>set gs. flt (Fin 0) (sigma f))"
    by blast
  with wt rej err cv nc ie show ?thesis by blast
qed
section \<open>The claims on the umbrella sampling\<close>

subsection \<open>Reaction coordinates\<close>

text \<open>
  Claim C6: window \<open>i\<close> of a path of \<open>N\<close> images has the reaction coordinate
  \<open>i/(N-1)\<close>, or \<open>0.0\<close> if there is only one image. Line 76 has the branch
  \<open>else 0.0\<close> for a path of one image, but the loop calls \<open>_estimate_tangent\<close> first,
  which reads \<open>path[1]\<close> for the index zero: on every path of one image, whatever the
  other arguments, \<open>umbrella_sampling\<close> raises \<open>IndexError\<close> and no window is made.
\<close>

theorem umbrella_sampling_single_image_raises:
  "umbrella_sampling rnd Random gauss potential [p] beta spring_constant window_half_width
     samples_per_window = Inl IndexError"
  by (simp add: umbrella_sampling_def estimate_tangent_def py_index_def py_nth_def)

text \<open>
  On the paths where \<open>umbrella_sampling\<close> returns, there is one window per image, in
  order, the path does not have exactly one image, and window \<open>i\<close> has the index \<open>i\<close>
  and the reaction coordinate \<open>i/(N-1)\<close>, rounded: \<open>0.0\<close> for the first window and
  \<open>1.0\<close> for the last when the rounding keeps zero and one.
\<close>

lemma umbrella_sampling_reaction_coordinates:
  assumes "umbrella_sampling rnd Random gauss potential pth beta spring_constant
     window_half_width samples_per_window = Inr ws"
  shows "length ws = length pth" and "length pth \<noteq> 1"
    and "\<forall>i<length pth. center_index (ws ! i) = i \<and>
           reaction_coordinate (ws ! i) = rnd (real i / real (length pth - 1))"
    and "pth \<noteq> [] \<longrightarrow> rnd 0 = Fin 0 \<longrightarrow> reaction_coordinate (ws ! 0) = Fin 0"
    and "pth \<noteq> [] \<longrightarrow> rnd 1 = Fin 1 \<longrightarrow> reaction_coordinate (ws ! (length pth - 1)) = Fin 1"
proof -
  note spec = umbrella_sampling_spec(1)[OF assms]
  from spec show len: "length ws = length pth" by (simp add: list_all2_lengthD[symmetric])
  show one: "length pth \<noteq> 1"
  proof
    assume "length pth = 1"
    then obtain p where "pth = [p]" by (cases pth) auto
    with assms show False
      by (simp add: umbrella_sampling_def estimate_tangent_def py_index_def py_nth_def)
  qed
  show all: "\<forall>i<length pth. center_index (ws ! i) = i \<and>
           reaction_coordinate (ws ! i) = rnd (real i / real (length pth - 1))"
  proof (intro allI impI)
    fix i assume i: "i < length pth"
    from list_all2_nthD[OF spec, of i] i
    have w: "window_of rnd beta (length pth) i (ws ! i)" by simp
    from i one have "1 < length pth" by simp
    then have "real_of_int (int (length pth) - 1) = real (length pth - 1)" by simp
    with w \<open>1 < length pth\<close> show "center_index (ws ! i) = i \<and>
           reaction_coordinate (ws ! i) = rnd (real i / real (length pth - 1))"
      by (simp add: window_of_def int_div_def)
  qed
  show "pth \<noteq> [] \<longrightarrow> rnd 0 = Fin 0 \<longrightarrow> reaction_coordinate (ws ! 0) = Fin 0"
    using all by simp
  show "pth \<noteq> [] \<longrightarrow> rnd 1 = Fin 1 \<longrightarrow> reaction_coordinate (ws ! (length pth - 1)) = Fin 1"
  proof (intro impI)
    assume ne: "pth \<noteq> []" and r: "rnd 1 = Fin 1"
    with one have "1 < length pth" by (cases pth) auto
    with all r show "reaction_coordinate (ws ! (length pth - 1)) = Fin 1" by simp
  qed
qed

subsection \<open>The free energy of a window\<close>



end
